(* ===== verification/Prelude.thy ===== *)
theory Prelude
  imports Main "HOL-Library.Multiset" "HOL-Library.Sublist"
begin

text \<open>
  Shared vocabulary of the development: the Python exceptions the scheduler can raise,
  Python truthiness of the values the allocator tests, the Python \<open>for\<close> loop over a
  list whose body may raise (\<open>py_for\<close>) with its invariant, counting and totality
  rules, Python list index assignment with negative indices, and the list swap used by
  \<open>random.shuffle\<close>.
\<close>

named_theorems occ_simps "evaluation rules of the occupancy tables"
named_theorems gen_simps "evaluation rules of the allocator's steps"

section \<open>Python values\<close>

text \<open>
  The exceptions the program can raise: a lookup in a \<open>dict\<close> or a \<open>list\<close>
  (\<open>KeyError\<close>, \<open>IndexError\<close>), and \<open>sqlite3\<close> binding a Python \<open>int\<close> that does
  not fit SQLite's 64-bit \<open>INTEGER\<close> (\<open>OverflowError\<close>).
\<close>

datatype py_error = KeyError | IndexError | OverflowError

type_synonym 'a py_result = "py_error + 'a"

text \<open>
  Truthiness of an optional string, as in \<open>if free_room and ...\<close>: \<open>None\<close> and the
  empty string are false, every other string is true.
\<close>

fun py_truthy_str :: "string option \<Rightarrow> bool" where
  "py_truthy_str None = False"
| "py_truthy_str (Some s) = (s \<noteq> [])"

text \<open>
  \<open>xs[i] = v\<close> on a Python list with an \<open>int\<close> index: a negative index counts from the
  end, an index out of range raises \<open>IndexError\<close>.
\<close>

definition py_list_set :: "'a list \<Rightarrow> int \<Rightarrow> 'a \<Rightarrow> 'a list py_result" where
  "py_list_set xs i v =
     (let n = int (length xs); j = (if i < 0 then n + i else i)
      in if 0 \<le> j \<and> j < n then Inr (xs[nat j := v]) else Inl IndexError)"

section \<open>The for loop whose body may raise\<close>

text \<open>
  \<open>for x in xs: body\<close>, where the body updates a state and may raise: the first
  exception ends the loop and is the loop's result.
\<close>

fun py_for :: "('x \<Rightarrow> 's \<Rightarrow> 's py_result) \<Rightarrow> 'x list \<Rightarrow> 's \<Rightarrow> 's py_result" where
  "py_for f [] s = Inr s"
| "py_for f (x # xs) s = (case f x s of Inl e \<Rightarrow> Inl e | Inr s' \<Rightarrow> py_for f xs s')"

text \<open>\<open>x[i], x[j] = x[j], x[i]\<close>: the right side is read before either slot is written.\<close>

definition swap :: "'a list \<Rightarrow> nat \<Rightarrow> nat \<Rightarrow> 'a list" where
  "swap xs i j = xs[i := xs ! j, j := xs ! i]"

section \<open>Lemmas on the loop\<close>

lemma py_for_append:
  "py_for f (xs @ ys) s = (case py_for f xs s of Inl e \<Rightarrow> Inl e | Inr s' \<Rightarrow> py_for f ys s')"
  by (induction xs arbitrary: s) (auto split: sum.splits)

text \<open>
  The loop rule: an invariant kept by every iteration that returns holds after the
  loop, and a quantity that every iteration raises by \<open>c x\<close> is raised by the sum.
\<close>

lemma py_for_count:
  fixes h :: "'s \<Rightarrow> nat"
  assumes step: "\<And>x s s'. x \<in> set xs \<Longrightarrow> I s \<Longrightarrow> f x s = Inr s' \<Longrightarrow> I s' \<and> h s' = h s + c x"
    and run: "py_for f xs s = Inr s'" and inv: "I s"
  shows "I s' \<and> h s' = h s + sum_list (map c xs)"
  using step run inv
proof (induction xs arbitrary: s)
  case Nil
  then show ?case by simp
next
  case (Cons x xs)
  from Cons.prems(2) obtain t where t: "f x s = Inr t" and rest: "py_for f xs t = Inr s'"
    by (simp split: sum.splits)
  have step': "\<And>y u u'. y \<in> set xs \<Longrightarrow> I u \<Longrightarrow> f y u = Inr u' \<Longrightarrow> I u' \<and> h u' = h u + c y"
    by (rule Cons.prems(1)) simp_all
  have "x \<in> set (x # xs)" by simp
  from Cons.prems(1) [OF this Cons.prems(3) t] have "I t" and ht: "h t = h s + c x" by simp_all
  have "I s' \<and> h s' = h t + sum_list (map c xs)"
    by (rule Cons.IH [OF step' rest \<open>I t\<close>])
  with ht show ?case by (simp add: add.assoc)
qed

lemma py_for_inv:
  assumes step: "\<And>x s s'. x \<in> set xs \<Longrightarrow> I s \<Longrightarrow> f x s = Inr s' \<Longrightarrow> I s'"
    and run: "py_for f xs s = Inr s'" and inv: "I s"
  shows "I s'"
  using step run inv
proof (induction xs arbitrary: s)
  case Nil
  then show ?case by simp
next
  case (Cons x xs)
  from Cons.prems(2) obtain t where t: "f x s = Inr t" and rest: "py_for f xs t = Inr s'"
    by (simp split: sum.splits)
  have step': "\<And>y u u'. y \<in> set xs \<Longrightarrow> I u \<Longrightarrow> f y u = Inr u' \<Longrightarrow> I u'"
    by (rule Cons.prems(1)) simp_all
  have "x \<in> set (x # xs)" by simp
  from Cons.prems(1) [OF this Cons.prems(3) t] have "I t" .
  from Cons.IH [OF step' rest this] show ?case .
qed

text \<open>
  The trace rule: when every iteration appends to a log \<open>P\<close> entries whose keys form a
  subsequence of \<open>A x\<close>, the whole loop appends entries whose keys form a subsequence
  of the concatenation, in loop order.
\<close>

lemma py_for_trace:
  fixes h :: "'s \<Rightarrow> nat"
  assumes step: "\<And>x s s'. x \<in> set xs \<Longrightarrow> I s \<Longrightarrow> f x s = Inr s' \<Longrightarrow>
      I s' \<and> (\<exists>new. P s' = P s @ new \<and> subseq (map g new) (A x)) \<and> h s' = h s + c x"
    and run: "py_for f xs s = Inr s'" and inv: "I s"
  shows "I s' \<and> (\<exists>new. P s' = P s @ new \<and> subseq (map g new) (concat (map A xs)))
      \<and> h s' = h s + sum_list (map c xs)"
  using step run inv
proof (induction xs arbitrary: s)
  case Nil
  then show ?case by simp
next
  case (Cons x xs)
  from Cons.prems(2) obtain t where t: "f x s = Inr t" and rest: "py_for f xs t = Inr s'"
    by (simp split: sum.splits)
  have step': "\<And>y u u'. y \<in> set xs \<Longrightarrow> I u \<Longrightarrow> f y u = Inr u' \<Longrightarrow>
      I u' \<and> (\<exists>new. P u' = P u @ new \<and> subseq (map g new) (A y)) \<and> h u' = h u + c y"
    by (rule Cons.prems(1)) simp_all
  have "x \<in> set (x # xs)" by simp
  from Cons.prems(1) [OF this Cons.prems(3) t] obtain new1 where
    "I t" and n1: "P t = P s @ new1" "subseq (map g new1) (A x)" and h1: "h t = h s + c x"
    by blast
  from Cons.IH [OF step' rest \<open>I t\<close>] obtain new2 where
    "I s'" and n2: "P s' = P t @ new2" "subseq (map g new2) (concat (map A xs))"
    and h2: "h s' = h t + sum_list (map c xs)"
    by blast
  have "subseq (map g (new1 @ new2)) (concat (map A (x # xs)))"
    using n1(2) n2(2) by (simp add: list_emb_append_mono)
  moreover have "P s' = P s @ (new1 @ new2)" using n1(1) n2(1) by simp
  moreover have "h s' = h s + sum_list (map c (x # xs))" using h1 h2 by simp
  ultimately show ?case using \<open>I s'\<close> by blast
qed

text \<open>Totality: if no iteration raises under the invariant, the loop does not raise.\<close>

lemma py_for_total:
  assumes "\<And>x s. x \<in> set xs \<Longrightarrow> I s \<Longrightarrow> \<exists>s'. f x s = Inr s' \<and> I s'"
    and "I s"
  shows "\<exists>s'. py_for f xs s = Inr s' \<and> I s'"
  using assms
proof (induction xs arbitrary: s)
  case Nil
  then show ?case by simp
next
  case (Cons x xs)
  have "x \<in> set (x # xs)" by simp
  from Cons.prems(1) [OF this Cons.prems(2)] obtain t where t: "f x s = Inr t" and "I t"
    by blast
  have step': "\<And>y u. y \<in> set xs \<Longrightarrow> I u \<Longrightarrow> \<exists>u'. f y u = Inr u' \<and> I u'"
    by (rule Cons.prems(1)) simp_all
  from Cons.IH [OF step' \<open>I t\<close>] t show ?case by simp
qed

text \<open>The exceptions of a loop are exceptions of its iterations, under the invariant.\<close>

lemma py_for_raises:
  assumes step: "\<And>x s s'. x \<in> set xs \<Longrightarrow> I s \<Longrightarrow> f x s = Inr s' \<Longrightarrow> I s'"
    and err: "\<And>x s e. x \<in> set xs \<Longrightarrow> I s \<Longrightarrow> f x s = Inl e \<Longrightarrow> P e"
    and run: "py_for f xs s = Inl e" and inv: "I s"
  shows "P e"
  using step err run inv
proof (induction xs arbitrary: s)
  case Nil
  then show ?case by simp
next
  case (Cons x xs)
  have "x \<in> set (x # xs)" by simp
  show ?case
  proof (cases "f x s")
    case (Inl e')
    with Cons.prems(3) have "e' = e" by simp
    with Cons.prems(2) [OF \<open>x \<in> set (x # xs)\<close> Cons.prems(4) Inl] show ?thesis by simp
  next
    case (Inr t)
    with Cons.prems(3) have rest: "py_for f xs t = Inl e" by simp
    from Cons.prems(1) [OF \<open>x \<in> set (x # xs)\<close> Cons.prems(4) Inr] have "I t" .
    have step': "\<And>y u u'. y \<in> set xs \<Longrightarrow> I u \<Longrightarrow> f y u = Inr u' \<Longrightarrow> I u'"
      by (rule Cons.prems(1)) simp_all
    have err': "\<And>y u e. y \<in> set xs \<Longrightarrow> I u \<Longrightarrow> f y u = Inl e \<Longrightarrow> P e"
      by (rule Cons.prems(2)) simp_all
    from Cons.IH [OF step' err' rest \<open>I t\<close>] show ?thesis .
  qed
qed

text \<open>An iteration that raises makes the whole loop raise, unless an earlier one did.\<close>

lemma py_for_Cons_Inr:
  "py_for f (x # xs) s = Inr s' \<Longrightarrow> \<exists>t. f x s = Inr t \<and> py_for f xs t = Inr s'"
  by (simp split: sum.splits)

lemma py_for_first_raises:
  "f x s = Inl e \<Longrightarrow> py_for f (x # xs) s = Inl e"
  by simp

section \<open>Lemmas on swaps and subsequences\<close>

lemma length_swap [simp]: "length (swap xs i j) = length xs"
  by (simp add: swap_def)

lemma mset_swap [simp]:
  "i < length xs \<Longrightarrow> j < length xs \<Longrightarrow> mset (swap xs i j) = mset xs"
  by (simp add: swap_def mset_update nth_list_update)

lemma subseq_set: "subseq xs ys \<Longrightarrow> set xs \<subseteq> set ys"
  by (auto dest: list_emb_set)

lemma subseq_distinct: "subseq xs ys \<Longrightarrow> distinct ys \<Longrightarrow> distinct xs"
  by (induction rule: list_emb.induct) (auto dest: subseq_set)

lemma map_eq_upt_bounds:
  "map f xs = [a..<b] \<Longrightarrow> x \<in> set xs \<Longrightarrow> a \<le> f x \<and> f x < b"
  by (metis atLeastLessThan_iff image_eqI list.set_map set_upt)


lemma py_list_set_length: "py_list_set xs i v = Inr ys \<Longrightarrow> length ys = length xs"
  by (auto simp: py_list_set_def Let_def split: if_splits)

lemma py_list_set_in_range:
  "0 \<le> i \<Longrightarrow> i < int (length xs) \<Longrightarrow> py_list_set xs i v = Inr (xs[nat i := v])"
  by (simp add: py_list_set_def)


text \<open>A dict comprehension \<open>{k: f(k) for k in ks}\<close> as a map.\<close>

lemma map_of_map_graph [simp]:
  "map_of (map (\<lambda>k. (k, f k)) ks) k = (if k \<in> set ks then Some (f k) else None)"
  by (induction ks) auto


lemma find_distinct_key:
  "distinct (map f xs) \<Longrightarrow> x \<in> set xs \<Longrightarrow> P x \<Longrightarrow> (\<And>y. y \<in> set xs \<Longrightarrow> P y \<Longrightarrow> f y = f x) \<Longrightarrow>
   find P xs = Some x"
proof (induction xs)
  case Nil
  then show ?case by simp
next
  case (Cons z xs)
  show ?case
  proof (cases "z = x")
    case True
    with Cons.prems(3) show ?thesis by simp
  next
    case False
    with Cons.prems(2) have x: "x \<in> set xs" by simp
    have "\<not> P z"
    proof
      assume "P z"
      with Cons.prems(4) [of z] have "f z = f x" by simp
      with x Cons.prems(1) show False by (auto simp: image_iff)
    qed
    moreover have "find P xs = Some x"
    proof (rule Cons.IH)
      show "distinct (map f xs)" using Cons.prems(1) by simp
      show "x \<in> set xs" by (rule x)
      show "P x" by (rule Cons.prems(3))
      fix y assume y: "y \<in> set xs" and py: "P y"
      from y have "y \<in> set (z # xs)" by simp
      from Cons.prems(4) [OF this py] show "f y = f x" .
    qed
    ultimately show ?thesis by simp
  qed
qed

end
