(* ===== verification/Shuffle.thy ===== *)
theory Shuffle
  imports Prelude
begin

text \<open>
  \<open>random.shuffle\<close> of CPython's \<open>Lib/random.py\<close>, which the allocator calls once
  per attempt on a copy of the subject list:
  \<^verbatim>\<open>
  def shuffle(self, x):
      randbelow = self._randbelow
      for i in reversed(range(1, len(x))):
          j = randbelow(i + 1)
          x[i], x[j] = x[j], x[i]
  \<close>
  The generator is the module-level Mersenne Twister, shared by every call. It is
  modelled as an oracle \<open>rnd :: nat \<Rightarrow> nat\<close> of raw draws and a position \<open>k\<close> in it:
  the \<open>k\<close>-th call of \<open>randbelow n\<close> returns \<open>rnd k mod n\<close>, a value below \<open>n\<close> as
  its contract says, and every value below \<open>n\<close> is some oracle's answer. Theorems
  quantified over all oracles hold for every run of the generator.
\<close>

definition randbelow :: "(nat \<Rightarrow> nat) \<Rightarrow> nat \<Rightarrow> nat \<Rightarrow> nat" where
  "randbelow rnd k n = rnd k mod n"

text \<open>
  The loop \<open>for i in reversed(range(1, len(x)))\<close>: \<open>shuffle_loop rnd i xs k\<close> runs the
  iterations for the indices \<open>i, i - 1, \<dots>, 1\<close>, drawing from position \<open>k\<close> on; it
  returns the list and the next position of the generator.
\<close>

fun shuffle_loop :: "(nat \<Rightarrow> nat) \<Rightarrow> nat \<Rightarrow> 'a list \<Rightarrow> nat \<Rightarrow> 'a list \<times> nat" where
  "shuffle_loop rnd 0 xs k = (xs, k)"
| "shuffle_loop rnd (Suc i) xs k =
     (let j = randbelow rnd k (Suc i + 1)
      in shuffle_loop rnd i (swap xs (Suc i) j) (Suc k))"

definition py_shuffle :: "(nat \<Rightarrow> nat) \<Rightarrow> 'a list \<Rightarrow> nat \<Rightarrow> 'a list \<times> nat" where
  "py_shuffle rnd xs k = shuffle_loop rnd (length xs - 1) xs k"

section \<open>The shuffle permutes its input\<close>

lemma randbelow_less: "0 < n \<Longrightarrow> randbelow rnd k n < n"
  by (simp add: randbelow_def)

lemma shuffle_loop_mset:
  "i < length xs \<Longrightarrow> mset (fst (shuffle_loop rnd i xs k)) = mset xs"
proof (induction i arbitrary: xs k)
  case 0
  then show ?case by simp
next
  case (Suc i)
  have "randbelow rnd k (Suc i + 1) < length xs"
    using randbelow_less [of "Suc i + 1" rnd k] Suc.prems by simp
  with Suc show ?case by (simp add: Let_def)
qed

lemma shuffle_loop_draws: "snd (shuffle_loop rnd i xs k) = k + i"
  by (induction i arbitrary: xs k) (simp_all add: Let_def)

text \<open>Each iteration reads the oracle at its own position, from \<open>k\<close> on.\<close>

lemma shuffle_loop_cong:
  "(\<And>m. k \<le> m \<Longrightarrow> rnd m = rnd' m) \<Longrightarrow> shuffle_loop rnd i xs k = shuffle_loop rnd' i xs k"
  by (induction i arbitrary: xs k) (simp_all add: Let_def randbelow_def)

lemma py_shuffle_mset [simp]: "mset (fst (py_shuffle rnd xs k)) = mset xs"
  by (cases xs) (simp_all add: py_shuffle_def shuffle_loop_mset)

lemma py_shuffle_set [simp]: "set (fst (py_shuffle rnd xs k)) = set xs"
  by (metis py_shuffle_mset set_mset_mset)

lemma py_shuffle_length [simp]: "length (fst (py_shuffle rnd xs k)) = length xs"
  by (metis py_shuffle_mset size_mset)

lemma py_shuffle_draws: "snd (py_shuffle rnd xs k) = k + (length xs - 1)"
  by (simp add: py_shuffle_def shuffle_loop_draws)

section \<open>Every order of the subjects can come out\<close>

text \<open>
  Helpers for the converse: a list and a permutation of it that agree from index
  \<open>n\<close> on agree as multisets below \<open>n\<close>, and a swap below \<open>n\<close> leaves the
  suffix from \<open>n\<close> alone.
\<close>

lemma mset_drop_eq_take:
  "mset ys = mset xs \<Longrightarrow> drop n ys = drop n xs \<Longrightarrow> mset (take n ys) = mset (take n xs)"
  by (metis add_right_cancel append_take_drop_id mset_append)

lemma drop_eq_nth_drop:
  "n < length xs \<Longrightarrow> drop n xs = xs ! n # drop (Suc n) xs"
  by (simp add: Cons_nth_drop_Suc)

lemma swap_drop:
  "i < n \<Longrightarrow> j < n \<Longrightarrow> drop n (swap xs i j) = drop n xs"
  by (simp add: swap_def)

lemma shuffle_loop_reaches:
  "i < length xs \<Longrightarrow> mset ys = mset xs \<Longrightarrow> drop (Suc i) ys = drop (Suc i) xs \<Longrightarrow>
   \<exists>rnd. fst (shuffle_loop rnd i xs k) = ys"
proof (induction i arbitrary: xs k)
  case 0
  have m1: "mset (take 1 ys) = mset (take 1 xs)"
    using mset_drop_eq_take [OF "0.prems"(2,3)] by simp
  have len: "length ys = length xs" using "0.prems"(2) by (metis size_mset)
  obtain x xs' where xs: "xs = x # xs'" using "0.prems"(1) by (cases xs) auto
  obtain y ys' where ys: "ys = y # ys'" using len xs by (cases ys) auto
  from m1 xs ys have "y = x" by simp
  moreover from "0.prems"(3) xs ys have "ys' = xs'" by simp
  ultimately show ?case using xs ys by simp
next
  case (Suc i)
  let ?n = "Suc (Suc i)"
  have len: "length ys = length xs" using Suc.prems(2) by (metis size_mset)
  have "ys ! Suc i = take ?n ys ! Suc i" by simp
  moreover have "Suc i < length (take ?n ys)" using Suc.prems(1) len by simp
  ultimately have "ys ! Suc i \<in> set (take ?n ys)" by (metis nth_mem)
  also have "set (take ?n ys) = set (take ?n xs)"
    using mset_drop_eq_take [OF Suc.prems(2,3)] by (metis set_mset_mset)
  finally obtain j where j: "j < ?n" "xs ! j = ys ! Suc i"
    using Suc.prems(1) by (auto simp: in_set_conv_nth)
  define xs' where "xs' = swap xs (Suc i) j"
  have jl: "j < length xs" using j(1) Suc.prems(1) by simp
  have m': "mset ys = mset xs'" using Suc.prems(1,2) jl by (simp add: xs'_def)
  have "xs' ! Suc i = ys ! Suc i"
    using Suc.prems(1) jl j(2) by (cases "j = Suc i") (simp_all add: xs'_def swap_def nth_list_update)
  moreover have "drop ?n xs' = drop ?n ys"
    using Suc.prems(3) j(1) by (simp add: xs'_def swap_drop)
  ultimately have d': "drop (Suc i) ys = drop (Suc i) xs'"
    using Suc.prems(1) len by (simp add: drop_eq_nth_drop xs'_def)
  from Suc.IH [of xs' "Suc k"] Suc.prems(1) m' d' obtain rnd' where
    r: "fst (shuffle_loop rnd' i xs' (Suc k)) = ys"
    by (auto simp: xs'_def)
  define rnd where "rnd = rnd'(k := j)"
  have "randbelow rnd k (Suc i + 1) = j" using j(1) by (simp add: rnd_def randbelow_def)
  moreover have "shuffle_loop rnd i xs' (Suc k) = shuffle_loop rnd' i xs' (Suc k)"
    by (rule shuffle_loop_cong) (simp add: rnd_def)
  ultimately have "fst (shuffle_loop rnd (Suc i) xs k) = ys"
    using r by (simp add: xs'_def)
  then show ?case by blast
qed

text \<open>
  C15. The tie-break among subjects is complete: for every ordering \<open>ys\<close> of the
  subject list there is a run of the generator under which \<open>random.shuffle\<close> yields
  exactly \<open>ys\<close>. So no subject order, and hence no first candidate, is excluded by the
  shuffle (spec, section 4.1 step 3a).
\<close>

theorem py_shuffle_reaches_every_permutation:
  "mset ys = mset xs \<Longrightarrow> \<exists>rnd. fst (py_shuffle rnd xs k) = ys"
proof (cases xs)
  case Nil
  assume "mset ys = mset xs"
  with Nil show ?thesis by (simp add: py_shuffle_def)
next
  case (Cons x xs')
  assume m: "mset ys = mset xs"
  then have "length ys = length xs" by (metis size_mset)
  with Cons have "drop (Suc (length xs - 1)) ys = drop (Suc (length xs - 1)) xs" by simp
  from shuffle_loop_reaches [OF _ m this] Cons show ?thesis
    by (simp add: py_shuffle_def)
qed

text \<open>
  C14. \<open>random.shuffle\<close> permutes the list it is given and consumes one draw per
  iteration, \<open>len(x) - 1\<close> in all.
\<close>

theorem shuffle_is_permutation:
  "mset (fst (py_shuffle rnd xs k)) = mset xs \<and> snd (py_shuffle rnd xs k) = k + (length xs - 1)"
  by (simp add: py_shuffle_draws)

theorem py_shuffle_reaches_every_permutation_witness:
  "\<exists>rnd. fst (py_shuffle rnd [1, 2, 3 :: nat] 0) = [3, 1, 2]"
  using py_shuffle_reaches_every_permutation [of "[3, 1, 2 :: nat]" "[1, 2, 3]" 0] by simp

end
