(* ===== verification/Store.thy ===== *)
theory Store
  imports Prelude
begin

text \<open>
  The SQLite database \<open>scheduler.db\<close> (\<open>init_db\<close>, src/app.py lines 37-48) and the
  CRUD endpoints over it (lines 80-177). Each table is a list of its rows in rowid
  order, which is the order \<open>SELECT *\<close> returns them in: the allocator depends on it,
  as it takes the first free room of \<open>SELECT * FROM rooms\<close>. The \<open>TEXT PRIMARY KEY\<close>
  of a table is a selector of its row record. \<open>INSERT OR REPLACE\<close> deletes the row
  with the same key and appends the new row with a fresh rowid; \<open>DELETE ... WHERE\<close>
  removes the rows with the key. The \<open>timetable\<close> table has an
  \<open>AUTOINCREMENT\<close> key, modelled by the counter \<open>tt_seq\<close> (SQLite's
  \<open>sqlite_sequence\<close> row for the table): ids are never reused, also after
  \<open>DELETE FROM timetable\<close>.
\<close>

section \<open>Rows\<close>

record room_row =
  room_id :: string
  room_name :: string
  capacity :: int
  room_type :: string
  resources :: string

record batch_row =
  batch_id :: string
  department :: string
  year :: int
  batch_section :: string
  batch_size :: int
  shift :: int

record faculty_row =
  fac_id :: string
  fac_name :: string

record subject_row =
  sub_id :: string
  sub_name :: string
  faculty_id :: string

record tt_row =
  entry_id :: nat
  tt_batch :: string
  tt_day :: string
  tt_slot :: int
  tt_subject :: string
  tt_faculty :: string
  tt_room :: string

record db =
  db_rooms :: "room_row list"
  db_batches :: "batch_row list"
  db_faculties :: "faculty_row list"
  db_subjects :: "subject_row list"
  db_timetable :: "tt_row list"
  tt_seq :: nat

text \<open>The database \<open>init_db\<close> creates on first start: every table empty.\<close>

definition init_db :: db where
  "init_db = \<lparr>db_rooms = [], db_batches = [], db_faculties = [], db_subjects = [],
              db_timetable = [], tt_seq = 0\<rparr>"

section \<open>Statements on a keyed table\<close>

definition insert_or_replace :: "('r \<Rightarrow> string) \<Rightarrow> 'r \<Rightarrow> 'r list \<Rightarrow> 'r list" where
  "insert_or_replace key r rows = filter (\<lambda>x. key x \<noteq> key r) rows @ [r]"

definition delete_where :: "('r \<Rightarrow> string) \<Rightarrow> string \<Rightarrow> 'r list \<Rightarrow> 'r list" where
  "delete_where key k rows = filter (\<lambda>x. key x \<noteq> k) rows"

text \<open>The row with a given primary key, as \<open>SELECT ... WHERE key = ?\<close> finds it.\<close>

definition select_key :: "('r \<Rightarrow> string) \<Rightarrow> string \<Rightarrow> 'r list \<Rightarrow> 'r option" where
  "select_key key k rows = find (\<lambda>x. key x = k) rows"

section \<open>The request bodies\<close>

text \<open>
  The Pydantic models of lines 55-77, one record per model, with the model's field
  names. A JSON body may omit a field that has a default; \<open>RoomIn\<close> and \<open>BatchIn\<close>
  build the model from the fields the body gives (\<open>None\<close> for an omitted one) and
  fill in the defaults of the class. \<open>FacultyIn\<close> and \<open>SubjectIn\<close> have no defaults.
  Pydantic's type validation (HTTP 422 on a field of the wrong type) happens before the
  handler runs and is not modelled.
\<close>

record room_in =
  ri_room_id :: string
  ri_room_name :: string
  ri_capacity :: int
  ri_type :: string
  ri_resources :: string

record faculty_in =
  fi_faculty_id :: string
  fi_name :: string

record subject_in =
  si_subject_id :: string
  si_name :: string
  si_faculty_id :: string

record batch_in =
  bi_batch_id :: string
  bi_department :: string
  bi_year :: int
  bi_section :: string
  bi_size :: int
  bi_shift :: int

definition RoomIn :: "string \<Rightarrow> string \<Rightarrow> int \<Rightarrow> string option \<Rightarrow> string option \<Rightarrow> room_in" where
  "RoomIn rid name cap ty res =
     \<lparr>ri_room_id = rid, ri_room_name = name, ri_capacity = cap,
      ri_type = (case ty of None \<Rightarrow> ''Lecture'' | Some t \<Rightarrow> t),
      ri_resources = (case res of None \<Rightarrow> '''' | Some r \<Rightarrow> r)\<rparr>"

definition BatchIn ::
  "string \<Rightarrow> string option \<Rightarrow> int option \<Rightarrow> string option \<Rightarrow> int option \<Rightarrow> int option \<Rightarrow> batch_in" where
  "BatchIn bid dep yr sec sz sh =
     \<lparr>bi_batch_id = bid, bi_department = (case dep of None \<Rightarrow> '''' | Some x \<Rightarrow> x),
      bi_year = (case yr of None \<Rightarrow> 1 | Some x \<Rightarrow> x), bi_section = (case sec of None \<Rightarrow> '''' | Some x \<Rightarrow> x),
      bi_size = (case sz of None \<Rightarrow> 0 | Some x \<Rightarrow> x), bi_shift = (case sh of None \<Rightarrow> 1 | Some x \<Rightarrow> x)\<rparr>"

text \<open>
  The row each \<open>INSERT OR REPLACE\<close> writes: the \<open>VALUES\<close> tuple of the handler, which
  maps the model's fields to the table's columns (\<open>faculty_id\<close> to \<open>fac_id\<close>,
  \<open>name\<close> to \<open>fac_name\<close> and \<open>sub_name\<close>, \<open>subject_id\<close> to \<open>sub_id\<close>).
\<close>

definition room_row_of :: "room_in \<Rightarrow> room_row" where
  "room_row_of r = \<lparr>room_id = ri_room_id r, room_name = ri_room_name r, capacity = ri_capacity r,
     room_type = ri_type r, resources = ri_resources r\<rparr>"

definition faculty_row_of :: "faculty_in \<Rightarrow> faculty_row" where
  "faculty_row_of f = \<lparr>fac_id = fi_faculty_id f, fac_name = fi_name f\<rparr>"

definition subject_row_of :: "subject_in \<Rightarrow> subject_row" where
  "subject_row_of s = \<lparr>sub_id = si_subject_id s, sub_name = si_name s, faculty_id = si_faculty_id s\<rparr>"

definition batch_row_of :: "batch_in \<Rightarrow> batch_row" where
  "batch_row_of b = \<lparr>batch_id = bi_batch_id b, department = bi_department b, year = bi_year b,
     batch_section = bi_section b, batch_size = bi_size b, shift = bi_shift b\<rparr>"

section \<open>The CRUD endpoints\<close>

text \<open>
  \<open>sqlite3\<close> binds a Python \<open>int\<close> parameter as a 64-bit \<open>INTEGER\<close> and raises
  \<open>OverflowError\<close> for one outside that range, before anything is written.
\<close>

definition sqlite_int :: "int \<Rightarrow> bool" where
  "sqlite_int i \<longleftrightarrow> - (2 ^ 63) \<le> i \<and> i < 2 ^ 63"

text \<open>
  Each handler returns the new database and the \<open>status\<close> of its JSON answer; every
  route runs in its own connection and commits. \<open>add_room\<close> and \<open>add_batch\<close> bind
  integers and raise \<open>OverflowError\<close> (HTTP 500, nothing stored) when one does not fit;
  the other handlers bind only strings.
\<close>

definition add_room :: "room_in \<Rightarrow> db \<Rightarrow> (db \<times> string) py_result" where
  "add_room r d =
     (if sqlite_int (ri_capacity r)
      then Inr (d\<lparr>db_rooms := insert_or_replace room_id (room_row_of r) (db_rooms d)\<rparr>, ''ok'')
      else Inl OverflowError)"

definition delete_room :: "string \<Rightarrow> db \<Rightarrow> db \<times> string" where
  "delete_room k d = (d\<lparr>db_rooms := delete_where room_id k (db_rooms d)\<rparr>, ''deleted'')"

definition add_faculty :: "faculty_in \<Rightarrow> db \<Rightarrow> db \<times> string" where
  "add_faculty f d = (d\<lparr>db_faculties := insert_or_replace fac_id (faculty_row_of f) (db_faculties d)\<rparr>, ''ok'')"

definition delete_faculty :: "string \<Rightarrow> db \<Rightarrow> db \<times> string" where
  "delete_faculty k d = (d\<lparr>db_faculties := delete_where fac_id k (db_faculties d)\<rparr>, ''deleted'')"

definition add_subject :: "subject_in \<Rightarrow> db \<Rightarrow> db \<times> string" where
  "add_subject s d = (d\<lparr>db_subjects := insert_or_replace sub_id (subject_row_of s) (db_subjects d)\<rparr>, ''ok'')"

definition delete_subject :: "string \<Rightarrow> db \<Rightarrow> db \<times> string" where
  "delete_subject k d = (d\<lparr>db_subjects := delete_where sub_id k (db_subjects d)\<rparr>, ''deleted'')"

definition add_batch :: "batch_in \<Rightarrow> db \<Rightarrow> (db \<times> string) py_result" where
  "add_batch b d =
     (if sqlite_int (bi_year b) \<and> sqlite_int (bi_size b) \<and> sqlite_int (bi_shift b)
      then Inr (d\<lparr>db_batches := insert_or_replace batch_id (batch_row_of b) (db_batches d)\<rparr>, ''ok'')
      else Inl OverflowError)"

definition delete_batch :: "string \<Rightarrow> db \<Rightarrow> db \<times> string" where
  "delete_batch k d = (d\<lparr>db_batches := delete_where batch_id k (db_batches d)\<rparr>, ''deleted'')"

text \<open>
  The CRUD routes of the FastAPI app (lines 81-177) as one datatype of requests, the
  JSON answers they give (a status, or the rows of a table in rowid order as
  \<open>SELECT *\<close> and \<open>dict_from_row\<close> return them) and the step the router takes.
\<close>

datatype crud_op =
    GetRooms | AddRoom room_in | DeleteRoom string
  | GetFaculty | AddFaculty faculty_in | DeleteFaculty string
  | GetSubjects | AddSubject subject_in | DeleteSubject string
  | GetBatches | AddBatch batch_in | DeleteBatch string

datatype crud_resp =
    Status string | RoomList "room_row list" | FacultyList "faculty_row list"
  | SubjectList "subject_row list" | BatchList "batch_row list"

fun crud_step :: "crud_op \<Rightarrow> db \<Rightarrow> (db \<times> crud_resp) py_result" where
  "crud_step GetRooms d = Inr (d, RoomList (db_rooms d))"
| "crud_step (AddRoom r) d = map_sum id (map_prod id Status) (add_room r d)"
| "crud_step (DeleteRoom k) d = Inr (map_prod id Status (delete_room k d))"
| "crud_step GetFaculty d = Inr (d, FacultyList (db_faculties d))"
| "crud_step (AddFaculty f) d = Inr (map_prod id Status (add_faculty f d))"
| "crud_step (DeleteFaculty k) d = Inr (map_prod id Status (delete_faculty k d))"
| "crud_step GetSubjects d = Inr (d, SubjectList (db_subjects d))"
| "crud_step (AddSubject s) d = Inr (map_prod id Status (add_subject s d))"
| "crud_step (DeleteSubject k) d = Inr (map_prod id Status (delete_subject k d))"
| "crud_step GetBatches d = Inr (d, BatchList (db_batches d))"
| "crud_step (AddBatch b) d = map_sum id (map_prod id Status) (add_batch b d)"
| "crud_step (DeleteBatch k) d = Inr (map_prod id Status (delete_batch k d))"

text \<open>The primary keys of every entity table are unique.\<close>

definition keys_unique :: "db \<Rightarrow> bool" where
  "keys_unique d \<longleftrightarrow> distinct (map room_id (db_rooms d)) \<and> distinct (map batch_id (db_batches d))
     \<and> distinct (map fac_id (db_faculties d)) \<and> distinct (map sub_id (db_subjects d))"

section \<open>Lemmas on keyed tables\<close>

lemma distinct_insert_or_replace [simp]:
  "distinct (map key rows) \<Longrightarrow> distinct (map key (insert_or_replace key r rows))"
  by (auto simp: insert_or_replace_def distinct_map_filter)

lemma distinct_delete_where [simp]:
  "distinct (map key rows) \<Longrightarrow> distinct (map key (delete_where key k rows))"
  by (simp add: delete_where_def distinct_map_filter)

lemma select_key_insert_or_replace:
  "select_key key k (insert_or_replace key r rows) = (if k = key r then Some r else select_key key k rows)"
  by (induction rows) (auto simp: select_key_def insert_or_replace_def)

lemma select_key_delete_where:
  "select_key key k (delete_where key k' rows) = (if k = k' then None else select_key key k rows)"
  by (induction rows) (auto simp: select_key_def delete_where_def)

lemma set_delete_where [simp]:
  "set (delete_where key k rows) = {x \<in> set rows. key x \<noteq> k}"
  by (auto simp: delete_where_def)

lemma set_insert_or_replace [simp]:
  "set (insert_or_replace key r rows) = insert r {x \<in> set rows. key x \<noteq> key r}"
  by (auto simp: insert_or_replace_def)

lemmas crud_defs = add_room_def delete_room_def add_faculty_def delete_faculty_def
  add_subject_def delete_subject_def add_batch_def delete_batch_def

lemmas row_of_defs = room_row_of_def faculty_row_of_def subject_row_of_def batch_row_of_def

lemma row_of_keys [simp]:
  "room_id (room_row_of r) = ri_room_id r" "fac_id (faculty_row_of f) = fi_faculty_id f"
  "sub_id (subject_row_of sj) = si_subject_id sj" "batch_id (batch_row_of b) = bi_batch_id b"
  by (simp_all add: row_of_defs)

text \<open>The only exception of a CRUD route: an integer that does not fit SQLite's \<open>INTEGER\<close>.\<close>

lemma crud_step_Inl:
  "crud_step op d = Inl e \<longleftrightarrow> e = OverflowError \<and>
     ((\<exists>r. op = AddRoom r \<and> \<not> sqlite_int (ri_capacity r)) \<or>
      (\<exists>b. op = AddBatch b \<and> \<not> (sqlite_int (bi_year b) \<and> sqlite_int (bi_size b) \<and> sqlite_int (bi_shift b))))"
  by (cases op) (auto simp: crud_defs)

lemma crud_step_timetable:
  "crud_step op d = Inr (d', resp) \<Longrightarrow> db_timetable d' = db_timetable d \<and> tt_seq d' = tt_seq d"
  by (cases op) (auto simp: crud_defs split: if_splits)

lemma crud_step_keys_unique:
  "crud_step op d = Inr (d', resp) \<Longrightarrow> keys_unique d \<Longrightarrow> keys_unique d'"
  by (cases op) (auto simp: crud_defs keys_unique_def split: if_splits)

section \<open>Properties of the CRUD routes\<close>

text \<open>A nested-loop join on a unique key meets at most one row: the one \<open>select_key\<close> finds.\<close>

lemma concat_map_key_unique:
  "distinct (map key rows) \<Longrightarrow>
   concat (map (\<lambda>r. if k = key r then F r else []) rows) =
     (case select_key key k rows of None \<Rightarrow> [] | Some r \<Rightarrow> F r)"
proof (induction rows)
  case Nil
  then show ?case by (simp add: select_key_def)
next
  case (Cons r rows)
  show ?case
  proof (cases "k = key r")
    case True
    with Cons.prems have "concat (map (\<lambda>r. if k = key r then F r else []) rows) = []"
      by (auto simp: concat_eq_Nil_conv)
    with True show ?thesis by (simp add: select_key_def)
  next
    case False
    with Cons show ?thesis by (simp add: select_key_def)
  qed
qed

text \<open>
  C18. Store and load agree: a \<open>POST\<close> of a room either raises \<open>OverflowError\<close>, exactly
  when its capacity does not fit SQLite's 64-bit \<open>INTEGER\<close>, or answers \<open>"ok"\<close> with
  the row its \<open>VALUES\<close> tuple builds found under its key, whatever was stored there
  before; the same for a batch and its three integers; faculties and subjects are always
  stored; after \<open>DELETE\<close> by a key no row is found under it; other keys are unaffected.
\<close>

theorem crud_roundtrip:
  "(case add_room r d of
      Inl e \<Rightarrow> e = OverflowError \<and> \<not> sqlite_int (ri_capacity r)
    | Inr (d', st) \<Rightarrow> sqlite_int (ri_capacity r) \<and> st = ''ok'' \<and>
        select_key room_id k (db_rooms d') =
          (if k = ri_room_id r then Some (room_row_of r) else select_key room_id k (db_rooms d))) \<and>
   select_key room_id k (db_rooms (fst (delete_room k' d))) =
     (if k = k' then None else select_key room_id k (db_rooms d)) \<and>
   select_key fac_id k (db_faculties (fst (add_faculty f d))) =
     (if k = fi_faculty_id f then Some (faculty_row_of f) else select_key fac_id k (db_faculties d)) \<and>
   select_key fac_id k (db_faculties (fst (delete_faculty k' d))) =
     (if k = k' then None else select_key fac_id k (db_faculties d)) \<and>
   select_key sub_id k (db_subjects (fst (add_subject sj d))) =
     (if k = si_subject_id sj then Some (subject_row_of sj) else select_key sub_id k (db_subjects d)) \<and>
   select_key sub_id k (db_subjects (fst (delete_subject k' d))) =
     (if k = k' then None else select_key sub_id k (db_subjects d)) \<and>
   (case add_batch b d of
      Inl e \<Rightarrow> e = OverflowError \<and> \<not> (sqlite_int (bi_year b) \<and> sqlite_int (bi_size b) \<and> sqlite_int (bi_shift b))
    | Inr (d', st) \<Rightarrow> sqlite_int (bi_year b) \<and> sqlite_int (bi_size b) \<and> sqlite_int (bi_shift b) \<and>
        st = ''ok'' \<and>
        select_key batch_id k (db_batches d') =
          (if k = bi_batch_id b then Some (batch_row_of b) else select_key batch_id k (db_batches d))) \<and>
   select_key batch_id k (db_batches (fst (delete_batch k' d))) =
     (if k = k' then None else select_key batch_id k (db_batches d))"
  by (simp add: crud_defs select_key_insert_or_replace select_key_delete_where)

end
