(* ===== verification/Occupancy.thy ===== *)
theory Occupancy
  imports Prelude
begin

text \<open>
  The occupancy tables of \<open>generate_timetable\<close> (src/app.py lines 201-202):
  \<^verbatim>\<open>
  global_fac_slot = {fid: {day: [False]*SLOTS_PER_DAY for day in DAYS} for fid in faculties.keys()}
  global_room_slot = {r: {day: [False]*SLOTS_PER_DAY for day in DAYS} for r in rooms}
  \<close>
  A table is a dict of dicts of lists of booleans. Each comprehension builds a fresh inner
  dict and a fresh list per key, so no two cells alias and an update writes one cell.
  A read \<open>t[k][day][slot]\<close> raises \<open>KeyError\<close> for an unknown key or day and
  \<open>IndexError\<close> for a slot past the list (\<open>occ_get\<close>); a write
  \<open>t[k][day][slot] = True\<close> raises the same way (\<open>occ_set\<close>). \<open>first_free\<close> is the
  generator expression \<open>next((r for r in rooms if not global_room_slot[r][day][slot]), None)\<close>
  of line 212. The abstract view \<open>occ_abs\<close> of a table is the set of used cells,
  written with the slot number the timetable stores (list index plus one).
\<close>

type_synonym occ = "string \<rightharpoonup> (string \<rightharpoonup> bool list)"

definition day_table :: "string list \<Rightarrow> nat \<Rightarrow> (string \<rightharpoonup> bool list)" where
  "day_table days n = map_of (map (\<lambda>d. (d, replicate n False)) days)"

definition init_occ :: "string list \<Rightarrow> string list \<Rightarrow> nat \<Rightarrow> occ" where
  "init_occ keys days n = map_of (map (\<lambda>k. (k, day_table days n)) keys)"

definition occ_get :: "occ \<Rightarrow> string \<Rightarrow> string \<Rightarrow> nat \<Rightarrow> bool py_result" where
  "occ_get m k d s =
     (case m k of
        None \<Rightarrow> Inl KeyError
      | Some dm \<Rightarrow>
          (case dm d of
             None \<Rightarrow> Inl KeyError
           | Some xs \<Rightarrow> if s < length xs then Inr (xs ! s) else Inl IndexError))"

definition occ_set :: "occ \<Rightarrow> string \<Rightarrow> string \<Rightarrow> nat \<Rightarrow> occ py_result" where
  "occ_set m k d s =
     (case m k of
        None \<Rightarrow> Inl KeyError
      | Some dm \<Rightarrow>
          (case dm d of
             None \<Rightarrow> Inl KeyError
           | Some xs \<Rightarrow>
               if s < length xs then Inr (m(k \<mapsto> dm(d \<mapsto> xs[s := True]))) else Inl IndexError))"

fun first_free :: "occ \<Rightarrow> string list \<Rightarrow> string \<Rightarrow> nat \<Rightarrow> string option py_result" where
  "first_free m [] d s = Inr None"
| "first_free m (r # rs) d s =
     (case occ_get m r d s of
        Inl e \<Rightarrow> Inl e
      | Inr b \<Rightarrow> if \<not> b then Inr (Some r) else first_free m rs d s)"

text \<open>
  The abstract table over keys \<open>K\<close>, days \<open>D\<close> and \<open>n\<close> slots whose used cells are
  \<open>U\<close>: the answer every read gives, errors included.
\<close>

definition occ_abs ::
  "string list \<Rightarrow> string list \<Rightarrow> nat \<Rightarrow> (string \<times> string \<times> int) set \<Rightarrow>
   string \<Rightarrow> string \<Rightarrow> nat \<Rightarrow> bool py_result" where
  "occ_abs K D n U k d s =
     (if k \<in> set K \<and> d \<in> set D then (if s < n then Inr ((k, d, int s + 1) \<in> U) else Inl IndexError)
      else Inl KeyError)"

section \<open>Reading and writing cells\<close>

lemma occ_get_init [occ_simps]:
  "occ_get (init_occ K D n) = occ_abs K D n {}"
  by (intro ext) (simp add: occ_get_def init_occ_def day_table_def occ_abs_def)

lemma occ_set_get [occ_simps]:
  "occ_set m k d s = Inr m' \<Longrightarrow>
   occ_get m' k' d' s' = (if k' = k \<and> d' = d \<and> s' = s then Inr True else occ_get m k' d' s')"
  by (auto simp: occ_set_def occ_get_def nth_list_update split: option.splits if_splits)

lemma occ_set_defined:
  "occ_get m k d s = Inr b \<Longrightarrow> \<exists>m'. occ_set m k d s = Inr m'"
  by (auto simp: occ_set_def occ_get_def split: option.splits if_splits)

lemma occ_abs_Inr_iff [occ_simps]:
  "occ_abs K D n U k d s = Inr b \<longleftrightarrow>
     k \<in> set K \<and> d \<in> set D \<and> s < n \<and> b = ((k, d, int s + 1) \<in> U)"
  by (auto simp: occ_abs_def)

text \<open>Marking a cell of a table that implements \<open>U\<close> gives one that implements \<open>U\<close> plus the cell.\<close>

lemma occ_set_abs:
  assumes m: "occ_get m = occ_abs K D n U" and k: "k \<in> set K" and d: "d \<in> set D" and s: "s < n"
  shows "\<exists>m'. occ_set m k d s = Inr m' \<and> occ_get m' = occ_abs K D n (insert (k, d, int s + 1) U)"
proof -
  have "occ_get m k d s = Inr ((k, d, int s + 1) \<in> U)"
    using k d s by (simp add: m occ_abs_def)
  then obtain m' where m': "occ_set m k d s = Inr m'" by (blast dest: occ_set_defined)
  have "occ_get m' = occ_abs K D n (insert (k, d, int s + 1) U)"
    by (intro ext) (auto simp: occ_set_get [OF m'] m occ_abs_def k d s)
  with m' show ?thesis by blast
qed

section \<open>The first free room\<close>

lemma first_free_find:
  "(\<And>r. r \<in> set rs \<Longrightarrow> \<exists>b. occ_get m r d s = Inr b) \<Longrightarrow>
   first_free m rs d s = Inr (find (\<lambda>r. occ_get m r d s = Inr False) rs)"
proof (induction rs)
  case Nil
  then show ?case by simp
next
  case (Cons r rs)
  from Cons.prems [of r] obtain b where b: "occ_get m r d s = Inr b" by auto
  have "\<And>r'. r' \<in> set rs \<Longrightarrow> \<exists>b. occ_get m r' d s = Inr b"
    by (rule Cons.prems) simp
  then have "first_free m rs d s = Inr (find (\<lambda>r. occ_get m r d s = Inr False) rs)"
    by (rule Cons.IH)
  with b show ?case by simp
qed

lemma first_free_abs:
  "occ_get m = occ_abs K D n U \<Longrightarrow> set rs \<subseteq> set K \<Longrightarrow> d \<in> set D \<Longrightarrow> s < n \<Longrightarrow>
   first_free m rs d s = Inr (find (\<lambda>r. (r, d, int s + 1) \<notin> U) rs)"
proof -
  assume m: "occ_get m = occ_abs K D n U" and rs: "set rs \<subseteq> set K" and d: "d \<in> set D" and s: "s < n"
  have "\<And>r. r \<in> set rs \<Longrightarrow> \<exists>b. occ_get m r d s = Inr b"
    using rs d s by (auto simp: m occ_abs_def)
  then have "first_free m rs d s = Inr (find (\<lambda>r. occ_get m r d s = Inr False) rs)"
    by (rule first_free_find)
  also have "find (\<lambda>r. occ_get m r d s = Inr False) rs = find (\<lambda>r. (r, d, int s + 1) \<notin> U) rs"
    using rs d s by (intro find_cong) (auto simp: m occ_abs_def)
  finally show ?thesis .
qed

lemma first_free_Some:
  "first_free m rs d s = Inr (Some r) \<Longrightarrow> r \<in> set rs \<and> occ_get m r d s = Inr False"
  by (induction rs) (auto split: sum.splits if_splits)

text \<open>
  C16. The occupancy tables refine sets of used cells: the table built by the
  comprehension of lines 201-202 implements the empty set; marking a cell of a table
  that implements \<open>U\<close> succeeds and implements \<open>U\<close> plus the cell; and the first free
  room over the table's own keys is the first key whose cell is not in \<open>U\<close>.
\<close>

theorem occ_refinement:
  "occ_get (init_occ K D n) = occ_abs K D n {} \<and>
   (occ_get m = occ_abs K D n U \<and> k \<in> set K \<and> d \<in> set D \<and> s < n \<longrightarrow>
      (\<exists>m'. occ_set m k d s = Inr m' \<and> occ_get m' = occ_abs K D n (insert (k, d, int s + 1) U)) \<and>
      first_free m K d s = Inr (find (\<lambda>r. (r, d, int s + 1) \<notin> U) K))"
  using occ_get_init occ_set_abs first_free_abs [of m K D n U K d s] by blast


theorem occ_refinement_witness:
  "(\<exists>m'. occ_set (init_occ [''R1'', ''R2''] [''Monday''] 6) ''R1'' ''Monday'' 0 = Inr m' \<and>
      occ_get m' = occ_abs [''R1'', ''R2''] [''Monday''] 6 {(''R1'', ''Monday'', 1)}) \<and>
   first_free (init_occ [''R1'', ''R2''] [''Monday''] 6) [''R1'', ''R2''] ''Monday'' 0 = Inr (Some ''R1'')"
  using occ_refinement [of "[''R1'', ''R2'']" "[''Monday'']" 6 "init_occ [''R1'', ''R2''] [''Monday''] 6"
      "{}" "''R1''" "''Monday''" 0]
  by (simp add: occ_get_init)

end
