(* ===== verification/Allocator.thy ===== *)
theory Allocator
  imports Prelude Shuffle Store Occupancy
begin

text \<open>
  The allocation engine, \<open>generate_timetable\<close> (src/app.py lines 187-231). One run
  reads the four entity tables, deletes the old timetable, builds the two occupancy
  tables and walks batches \<open>\<times>\<close> \<open>DAYS\<close> \<open>\<times>\<close> slots. For each attempt it shuffles the
  subjects and takes the first subject whose faculty is free while a free room exists;
  it inserts one timetable row, marks both cells and stops, or counts the attempt as
  unscheduled. The run's mutable locals are the record \<open>gen_state\<close>; the read-only
  ones are \<open>gen_env\<close>. The three nested \<open>for\<close> loops are \<open>py_for\<close> loops, so that a
  \<open>KeyError\<close> of a lookup ends the run, as the exception ends the request (HTTP 500),
  and the uncommitted transaction (the \<open>DELETE\<close> and the \<open>INSERT\<close>s) is rolled back.
\<close>

definition DAYS :: "string list" where
  "DAYS = [''Monday'', ''Tuesday'', ''Wednesday'', ''Thursday'', ''Friday'']"

definition SLOTS_PER_DAY :: nat where
  "SLOTS_PER_DAY = 6"

record gen_env =
  env_subjects :: "subject_row list"
  env_rooms :: "string list"
  env_days :: "string list"
  env_nslots :: nat
  env_rnd :: "nat \<Rightarrow> nat"

record gen_state =
  fac_slot :: occ
  room_slot :: occ
  pending :: "tt_row list"
  seq :: nat
  unscheduled :: nat
  rng_pos :: nat

record gen_response =
  gr_status :: string
  gr_scheduled :: int
  gr_unscheduled :: int

text \<open>The row the \<open>INSERT INTO timetable\<close> of lines 214-217 writes; \<open>slot+1\<close> is stored.\<close>

definition new_entry :: "nat \<Rightarrow> batch_row \<Rightarrow> string \<Rightarrow> nat \<Rightarrow> subject_row \<Rightarrow> string \<Rightarrow> tt_row" where
  "new_entry i b d s subj r =
     \<lparr>entry_id = i, tt_batch = batch_id b, tt_day = d, tt_slot = int s + 1,
      tt_subject = sub_id subj, tt_faculty = faculty_id subj, tt_room = r\<rparr>"

text \<open>The placement, lines 214-219: insert the row, then mark the faculty and the room.\<close>

definition place :: "batch_row \<Rightarrow> string \<Rightarrow> nat \<Rightarrow> subject_row \<Rightarrow> string \<Rightarrow> gen_state \<Rightarrow> gen_state py_result" where
  "place b d s subj r st =
     (let e = new_entry (Suc (seq st)) b d s subj r in
      case occ_set (fac_slot st) (faculty_id subj) d s of
        Inl err \<Rightarrow> Inl err
      | Inr fm \<Rightarrow>
          (case occ_set (room_slot st) r d s of
             Inl err \<Rightarrow> Inl err
           | Inr rm \<Rightarrow> Inr (st\<lparr>pending := pending st @ [e], seq := Suc (seq st),
                               fac_slot := fm, room_slot := rm\<rparr>)))"

text \<open>
  The loop over the shuffled subjects, lines 210-221. The free room is looked up anew for
  every subject; the condition \<open>free_room and not global_fac_slot[fac_id][day][slot]\<close>
  reads the faculty cell only when \<open>free_room\<close> is truthy (Python's \<open>and\<close> short-circuits),
  and a room whose id is the empty string is falsy. The result's flag is \<open>placed\<close>.
\<close>

fun try_subjects ::
  "gen_env \<Rightarrow> batch_row \<Rightarrow> string \<Rightarrow> nat \<Rightarrow> subject_row list \<Rightarrow> gen_state \<Rightarrow> (gen_state \<times> bool) py_result" where
  "try_subjects E b d s [] st = Inr (st, False)"
| "try_subjects E b d s (subj # rest) st =
     (case first_free (room_slot st) (env_rooms E) d s of
        Inl err \<Rightarrow> Inl err
      | Inr free_room \<Rightarrow>
          if py_truthy_str free_room then
            (case occ_get (fac_slot st) (faculty_id subj) d s of
               Inl err \<Rightarrow> Inl err
             | Inr busy \<Rightarrow>
                 if \<not> busy then
                   (case place b d s subj (the free_room) st of
                      Inl err \<Rightarrow> Inl err
                    | Inr st' \<Rightarrow> Inr (st', True))
                 else try_subjects E b d s rest st)
          else try_subjects E b d s rest st)"

text \<open>One attempt, the body of the slot loop (lines 207-223): a fresh shuffle of a copy of the subjects, the search, and the count of an unscheduled attempt.\<close>

definition attempt :: "gen_env \<Rightarrow> batch_row \<Rightarrow> string \<Rightarrow> nat \<Rightarrow> gen_state \<Rightarrow> gen_state py_result" where
  "attempt E b d s st =
     (let (subjects_shuffled, k') = py_shuffle (env_rnd E) (env_subjects E) (rng_pos st) in
      case try_subjects E b d s subjects_shuffled (st\<lparr>rng_pos := k'\<rparr>) of
        Inl err \<Rightarrow> Inl err
      | Inr (st', placed) \<Rightarrow>
          Inr (if placed then st' else st'\<lparr>unscheduled := Suc (unscheduled st')\<rparr>))"

text \<open>The three nested loops of lines 204-206, in the order of the source.\<close>

definition run_slots :: "gen_env \<Rightarrow> batch_row \<Rightarrow> string \<Rightarrow> gen_state \<Rightarrow> gen_state py_result" where
  "run_slots E b d = py_for (attempt E b d) [0..<env_nslots E]"

definition run_days :: "gen_env \<Rightarrow> batch_row \<Rightarrow> gen_state \<Rightarrow> gen_state py_result" where
  "run_days E b = py_for (run_slots E b) (env_days E)"

definition run_batches :: "gen_env \<Rightarrow> batch_row list \<Rightarrow> gen_state \<Rightarrow> gen_state py_result" where
  "run_batches E bs = py_for (run_days E) bs"

text \<open>
  The inputs of a run, lines 194-197: the subjects in table order, the room ids in table
  order, the fixed grid; and its start state, lines 192 and 199-202: the old timetable
  deleted, nothing unscheduled, both tables all \<open>False\<close>.
\<close>

definition gen_env_of :: "(nat \<Rightarrow> nat) \<Rightarrow> db \<Rightarrow> gen_env" where
  "gen_env_of rnd d =
     \<lparr>env_subjects = db_subjects d, env_rooms = map room_id (db_rooms d),
      env_days = DAYS, env_nslots = SLOTS_PER_DAY, env_rnd = rnd\<rparr>"

definition gen_init :: "db \<Rightarrow> nat \<Rightarrow> gen_state" where
  "gen_init d k =
     \<lparr>fac_slot = init_occ (map fac_id (db_faculties d)) DAYS SLOTS_PER_DAY,
      room_slot = init_occ (map room_id (db_rooms d)) DAYS SLOTS_PER_DAY,
      pending = [], seq = tt_seq d, unscheduled = 0, rng_pos = k\<rparr>"

text \<open>
  The endpoint: on success the new rows replace the timetable (the commit), and the
  answer reports \<open>scheduled = total_slots - unscheduled\<close>. It also returns the
  generator's next position, the state \<open>random\<close> keeps between requests.
\<close>

definition generate_timetable :: "(nat \<Rightarrow> nat) \<Rightarrow> nat \<Rightarrow> db \<Rightarrow> (db \<times> nat \<times> gen_response) py_result" where
  "generate_timetable rnd k d =
     (case run_batches (gen_env_of rnd d) (db_batches d) (gen_init d k) of
        Inl err \<Rightarrow> Inl err
      | Inr st \<Rightarrow>
          (let total_slots = length (db_batches d) * length DAYS * SLOTS_PER_DAY;
               scheduled = int total_slots - int (unscheduled st)
           in Inr (d\<lparr>db_timetable := pending st, tt_seq := seq st\<rparr>, rng_pos st,
                   \<lparr>gr_status = ''ok'', gr_scheduled = scheduled,
                    gr_unscheduled = int (unscheduled st)\<rparr>)))"

section \<open>What a run promises\<close>

text \<open>
  The abstract specification: the keys under which a row occupies a faculty, a room and
  an attempt, and the attempts of a run in the order of the loops.
\<close>

definition fac_key :: "tt_row \<Rightarrow> string \<times> string \<times> int" where
  "fac_key e = (tt_faculty e, tt_day e, tt_slot e)"

definition room_key :: "tt_row \<Rightarrow> string \<times> string \<times> int" where
  "room_key e = (tt_room e, tt_day e, tt_slot e)"

definition attempt_key :: "tt_row \<Rightarrow> string \<times> string \<times> int" where
  "attempt_key e = (tt_batch e, tt_day e, tt_slot e)"

definition slot_attempts :: "batch_row \<Rightarrow> string \<Rightarrow> nat \<Rightarrow> (string \<times> string \<times> int) list" where
  "slot_attempts b d n = map (\<lambda>s. (batch_id b, d, int s + 1)) [0..<n]"

definition day_attempts :: "batch_row \<Rightarrow> string list \<Rightarrow> nat \<Rightarrow> (string \<times> string \<times> int) list" where
  "day_attempts b days n = concat (map (\<lambda>d. slot_attempts b d n) days)"

definition attempts :: "batch_row list \<Rightarrow> string list \<Rightarrow> nat \<Rightarrow> (string \<times> string \<times> int) list" where
  "attempts bs days n = concat (map (\<lambda>b. day_attempts b days n) bs)"

text \<open>
  The invariant of a run over faculty keys \<open>F\<close> that started at sequence number
  \<open>seq0\<close>: each occupancy table implements the set of cells the pending rows use; no
  two pending rows share a faculty cell or a room cell; the rows carry the ids
  \<open>seq0 + 1, seq0 + 2, \<dots>\<close>; every row names a room of the run, a known faculty, and a
  subject whose assigned faculty it names.
\<close>

definition gen_inv :: "gen_env \<Rightarrow> string list \<Rightarrow> nat \<Rightarrow> gen_state \<Rightarrow> bool" where
  "gen_inv E F seq0 st \<longleftrightarrow>
     occ_get (fac_slot st) = occ_abs F (env_days E) (env_nslots E) (fac_key ` set (pending st)) \<and>
     occ_get (room_slot st) = occ_abs (env_rooms E) (env_days E) (env_nslots E) (room_key ` set (pending st)) \<and>
     distinct (map fac_key (pending st)) \<and> distinct (map room_key (pending st)) \<and>
     seq0 \<le> seq st \<and> map entry_id (pending st) = [Suc seq0..<Suc (seq st)] \<and>
     (\<forall>e\<in>set (pending st). tt_room e \<in> set (env_rooms E) \<and> tt_faculty e \<in> set F \<and>
        (\<exists>subj\<in>set (env_subjects E). tt_subject e = sub_id subj \<and> tt_faculty e = faculty_id subj))"

text \<open>
  A stretch of a run from \<open>st\<close> to \<open>st'\<close> that was to make the attempts \<open>A\<close>
  advances as specified: the invariant holds, the rows it added are, by their attempt
  keys, a subsequence of \<open>A\<close> in order, and every attempt of \<open>A\<close> added either a
  row or an unscheduled count.
\<close>

definition advances ::
  "gen_env \<Rightarrow> string list \<Rightarrow> nat \<Rightarrow> (string \<times> string \<times> int) list \<Rightarrow> gen_state \<Rightarrow> gen_state \<Rightarrow> bool" where
  "advances E F seq0 A st st' \<longleftrightarrow>
     gen_inv E F seq0 st' \<and>
     (\<exists>new. pending st' = pending st @ new \<and> subseq (map attempt_key new) A) \<and>
     length (pending st') + unscheduled st' = length (pending st) + unscheduled st + length A"

section \<open>The placement keeps the invariant\<close>

lemma keys_new_entry [simp]:
  "fac_key (new_entry i b d s subj r) = (faculty_id subj, d, int s + 1)"
  "room_key (new_entry i b d s subj r) = (r, d, int s + 1)"
  "attempt_key (new_entry i b d s subj r) = (batch_id b, d, int s + 1)"
  "entry_id (new_entry i b d s subj r) = i"
  "tt_room (new_entry i b d s subj r) = r"
  "tt_faculty (new_entry i b d s subj r) = faculty_id subj"
  "tt_subject (new_entry i b d s subj r) = sub_id subj"
  by (simp_all add: new_entry_def fac_key_def room_key_def attempt_key_def)

lemma gen_inv_update_counters [simp]:
  "gen_inv E F seq0 (st\<lparr>rng_pos := k\<rparr>) = gen_inv E F seq0 st"
  "gen_inv E F seq0 (st\<lparr>unscheduled := u\<rparr>) = gen_inv E F seq0 st"
  by (simp_all add: gen_inv_def)

lemma place_keeps_inv:
  assumes inv: "gen_inv E F seq0 st" and subj: "subj \<in> set (env_subjects E)"
    and fac: "occ_get (fac_slot st) (faculty_id subj) d s = Inr False"
    and room: "occ_get (room_slot st) r d s = Inr False"
  shows "\<exists>st'. place b d s subj r st = Inr st' \<and> gen_inv E F seq0 st' \<and>
           pending st' = pending st @ [new_entry (Suc (seq st)) b d s subj r] \<and>
           unscheduled st' = unscheduled st \<and> rng_pos st' = rng_pos st"
proof -
  let ?D = "env_days E" and ?n = "env_nslots E" and ?e = "new_entry (Suc (seq st)) b d s subj r"
  from inv fac have f: "faculty_id subj \<in> set F" "d \<in> set ?D" "s < ?n"
    and fnew: "(faculty_id subj, d, int s + 1) \<notin> fac_key ` set (pending st)"
    by (simp_all add: gen_inv_def occ_abs_Inr_iff)
  from inv room have r: "r \<in> set (env_rooms E)"
    and rnew: "(r, d, int s + 1) \<notin> room_key ` set (pending st)"
    by (simp_all add: gen_inv_def occ_abs_Inr_iff)
  have fa: "occ_get (fac_slot st) = occ_abs F ?D ?n (fac_key ` set (pending st))"
    and ra: "occ_get (room_slot st) = occ_abs (env_rooms E) ?D ?n (room_key ` set (pending st))"
    using inv by (simp_all add: gen_inv_def)
  from occ_set_abs [OF fa f] obtain fm where fm: "occ_set (fac_slot st) (faculty_id subj) d s = Inr fm"
    and fma: "occ_get fm = occ_abs F ?D ?n (insert (faculty_id subj, d, int s + 1) (fac_key ` set (pending st)))"
    by blast
  from occ_set_abs [OF ra r f(2,3)] obtain rm where rm: "occ_set (room_slot st) r d s = Inr rm"
    and rma: "occ_get rm = occ_abs (env_rooms E) ?D ?n (insert (r, d, int s + 1) (room_key ` set (pending st)))"
    by blast
  define st' where "st' = st\<lparr>pending := pending st @ [?e], seq := Suc (seq st), fac_slot := fm, room_slot := rm\<rparr>"
  have "place b d s subj r st = Inr st'" by (simp add: place_def fm rm st'_def Let_def)
  moreover have "gen_inv E F seq0 st'"
    using inv fma rma fnew rnew f r subj by (auto simp: gen_inv_def st'_def)
  ultimately show ?thesis by (simp add: st'_def)
qed

section \<open>One attempt keeps the invariant\<close>

lemma try_subjects_keeps_inv:
  "try_subjects E b d s subs st = Inr (st', placed) \<Longrightarrow> gen_inv E F seq0 st \<Longrightarrow>
   set subs \<subseteq> set (env_subjects E) \<Longrightarrow>
   gen_inv E F seq0 st' \<and> unscheduled st' = unscheduled st \<and>
   (if placed then \<exists>subj r. pending st' = pending st @ [new_entry (Suc (seq st)) b d s subj r]
    else st' = st)"
proof (induction subs)
  case Nil
  then show ?case by simp
next
  case (Cons subj rest)
  from Cons.prems(1) obtain fr where ff: "first_free (room_slot st) (env_rooms E) d s = Inr fr"
    by (cases "first_free (room_slot st) (env_rooms E) d s") auto
  show ?case
  proof (cases "py_truthy_str fr")
    case False
    with Cons.prems(1) ff have "try_subjects E b d s rest st = Inr (st', placed)" by simp
    with Cons.IH Cons.prems(2,3) show ?thesis by simp
  next
    case True
    then obtain r where fr: "fr = Some r" and rne: "r \<noteq> []" by (cases fr) auto
    from ff fr have room: "occ_get (room_slot st) r d s = Inr False" by (blast dest: first_free_Some)
    from Cons.prems(1) ff True obtain busy
      where busy: "occ_get (fac_slot st) (faculty_id subj) d s = Inr busy"
      by (cases "occ_get (fac_slot st) (faculty_id subj) d s") auto
    show ?thesis
    proof (cases busy)
      case True
      with Cons.prems(1) ff fr rne busy have "try_subjects E b d s rest st = Inr (st', placed)"
        by simp
      with Cons.IH Cons.prems(2,3) show ?thesis by simp
    next
      case False
      from Cons.prems(3) have "subj \<in> set (env_subjects E)" by simp
      moreover from busy False have "occ_get (fac_slot st) (faculty_id subj) d s = Inr False" by simp
      ultimately obtain st''
        where p: "place b d s subj r st = Inr st''" and st'': "gen_inv E F seq0 st''"
          "pending st'' = pending st @ [new_entry (Suc (seq st)) b d s subj r]"
          "unscheduled st'' = unscheduled st"
        using place_keeps_inv [OF Cons.prems(2) _ _ room] by blast
      from Cons.prems(1) ff fr rne busy False p have "st' = st''" and "placed" by simp_all
      with st'' show ?thesis by auto
    qed
  qed
qed

lemma attempt_keeps_inv:
  assumes run: "attempt E b d s st = Inr st'" and inv: "gen_inv E F seq0 st"
  shows "advances E F seq0 [(batch_id b, d, int s + 1)] st st'"
proof -
  obtain subs k' where sh: "py_shuffle (env_rnd E) (env_subjects E) (rng_pos st) = (subs, k')"
    by (cases "py_shuffle (env_rnd E) (env_subjects E) (rng_pos st)")
  have subs: "set subs \<subseteq> set (env_subjects E)"
    using py_shuffle_set [of "env_rnd E" "env_subjects E" "rng_pos st"] sh by simp
  from run sh obtain st1 placed
    where t: "try_subjects E b d s subs (st\<lparr>rng_pos := k'\<rparr>) = Inr (st1, placed)"
      and st': "st' = (if placed then st1 else st1\<lparr>unscheduled := Suc (unscheduled st1)\<rparr>)"
    by (auto simp: attempt_def split: sum.splits)
  have inv1: "gen_inv E F seq0 (st\<lparr>rng_pos := k'\<rparr>)" using inv by simp
  from try_subjects_keeps_inv [OF t inv1 subs] have
    i1: "gen_inv E F seq0 st1" "unscheduled st1 = unscheduled st"
    and p1: "if placed then \<exists>subj r. pending st1 = pending st @ [new_entry (Suc (seq st)) b d s subj r]
             else st1 = st\<lparr>rng_pos := k'\<rparr>"
    by (cases placed; simp)+
  show ?thesis
  proof (cases placed)
    case True
    with p1 obtain subj r where "pending st1 = pending st @ [new_entry (Suc (seq st)) b d s subj r]"
      by auto
    with True st' i1 show ?thesis
      unfolding advances_def by (intro conjI exI [of _ "[new_entry (Suc (seq st)) b d s subj r]"]) simp_all
  next
    case False
    with p1 st' i1 show ?thesis unfolding advances_def by (intro conjI exI [of _ "[]"]) simp_all
  qed
qed

section \<open>The loops keep the invariant\<close>

lemma loop_advances:
  assumes step: "\<And>x u u'. f x u = Inr u' \<Longrightarrow> gen_inv E F seq0 u \<Longrightarrow> advances E F seq0 (A x) u u'"
    and run: "py_for f xs st = Inr st'" and inv: "gen_inv E F seq0 st"
  shows "advances E F seq0 (concat (map A xs)) st st'"
proof -
  have "gen_inv E F seq0 st' \<and>
     (\<exists>new. pending st' = pending st @ new \<and> subseq (map attempt_key new) (concat (map A xs))) \<and>
     length (pending st') + unscheduled st' =
       length (pending st) + unscheduled st + sum_list (map (\<lambda>x. length (A x)) xs)"
    by (rule py_for_trace [where I = "gen_inv E F seq0" and P = pending and g = attempt_key
          and h = "\<lambda>u. length (pending u) + unscheduled u" and c = "\<lambda>x. length (A x)",
          OF _ run inv])
       (use step in \<open>simp add: advances_def\<close>)
  then show ?thesis by (simp add: advances_def length_concat comp_def)
qed

lemma run_slots_advances:
  assumes "run_slots E b d st = Inr st'" and "gen_inv E F seq0 st"
  shows "advances E F seq0 (slot_attempts b d (env_nslots E)) st st'"
proof -
  have "advances E F seq0 (concat (map (\<lambda>s. [(batch_id b, d, int s + 1)]) [0..<env_nslots E])) st st'"
    by (rule loop_advances [OF attempt_keeps_inv]) (use assms in \<open>simp_all add: run_slots_def\<close>)
  then show ?thesis by (simp add: slot_attempts_def)
qed

lemma run_days_advances:
  assumes "run_days E b st = Inr st'" and "gen_inv E F seq0 st"
  shows "advances E F seq0 (day_attempts b (env_days E) (env_nslots E)) st st'"
  unfolding day_attempts_def
  by (rule loop_advances [OF run_slots_advances]) (use assms in \<open>simp_all add: run_days_def\<close>)

lemma run_batches_advances:
  assumes "run_batches E bs st = Inr st'" and "gen_inv E F seq0 st"
  shows "advances E F seq0 (attempts bs (env_days E) (env_nslots E)) st st'"
  unfolding attempts_def
  by (rule loop_advances [OF run_days_advances]) (use assms in \<open>simp_all add: run_batches_def\<close>)

section \<open>The endpoint\<close>

lemma length_attempts [simp]: "length (attempts bs days n) = length bs * length days * n"
  by (simp add: attempts_def day_attempts_def slot_attempts_def length_concat comp_def sum_list_triv)

lemma set_attempts:
  "set (attempts bs days n) =
     {(batch_id b, d, int s + 1) | b d s. b \<in> set bs \<and> d \<in> set days \<and> s < n}"
  by (auto simp: attempts_def day_attempts_def slot_attempts_def image_iff)

lemma distinct_attempts:
  "distinct (map batch_id bs) \<Longrightarrow> distinct days \<Longrightarrow> distinct (attempts bs days n)"
proof (induction bs)
  case Nil
  then show ?case by (simp add: attempts_def)
next
  case (Cons b bs)
  have "distinct (day_attempts b days n)"
    using Cons.prems(2)
    by (induction days) (auto simp: day_attempts_def slot_attempts_def distinct_map inj_on_def)
  moreover have "set (day_attempts b days n) \<inter> set (attempts bs days n) = {}"
    using Cons.prems(1) by (auto simp: set_attempts day_attempts_def slot_attempts_def)
  ultimately show ?case using Cons by (simp add: attempts_def)
qed

lemma gen_inv_init:
  "gen_inv (gen_env_of rnd d) (map fac_id (db_faculties d)) (tt_seq d) (gen_init d k)"
  by (simp add: gen_inv_def gen_env_of_def gen_init_def occ_get_init)

text \<open>What a successful request did: one run from the start state, whose rows replace the timetable.\<close>

lemma generate_timetable_Inr:
  assumes "generate_timetable rnd k d = Inr (d', k', resp)"
  obtains st where
    "advances (gen_env_of rnd d) (map fac_id (db_faculties d)) (tt_seq d)
       (attempts (db_batches d) DAYS SLOTS_PER_DAY) (gen_init d k) st"
    "d' = d\<lparr>db_timetable := pending st, tt_seq := seq st\<rparr>" "k' = rng_pos st"
    "resp = \<lparr>gr_status = ''ok'',
             gr_scheduled = int (length (db_batches d) * length DAYS * SLOTS_PER_DAY) - int (unscheduled st),
             gr_unscheduled = int (unscheduled st)\<rparr>"
proof -
  from assms obtain st where run: "run_batches (gen_env_of rnd d) (db_batches d) (gen_init d k) = Inr st"
    and eqs: "d' = d\<lparr>db_timetable := pending st, tt_seq := seq st\<rparr>" "k' = rng_pos st"
      "resp = \<lparr>gr_status = ''ok'',
             gr_scheduled = int (length (db_batches d) * length DAYS * SLOTS_PER_DAY) - int (unscheduled st),
             gr_unscheduled = int (unscheduled st)\<rparr>"
    by (auto simp: generate_timetable_def Let_def split: sum.splits)
  from run_batches_advances [OF run gen_inv_init] have
    "advances (gen_env_of rnd d) (map fac_id (db_faculties d)) (tt_seq d)
       (attempts (db_batches d) DAYS SLOTS_PER_DAY) (gen_init d k) st"
    by (simp add: gen_env_of_def)
  with eqs that show ?thesis by blast
qed

text \<open>The facts of the invariant about the committed timetable.\<close>

lemma generate_timetable_inv:
  assumes "generate_timetable rnd k d = Inr (d', k', resp)"
  shows "distinct (map fac_key (db_timetable d'))"
    and "distinct (map room_key (db_timetable d'))"
    and "tt_seq d \<le> tt_seq d'"
    and "map entry_id (db_timetable d') = [Suc (tt_seq d)..<Suc (tt_seq d')]"
    and "\<forall>e\<in>set (db_timetable d'). tt_room e \<in> room_id ` set (db_rooms d) \<and>
           tt_faculty e \<in> fac_id ` set (db_faculties d) \<and>
           (\<exists>subj\<in>set (db_subjects d). tt_subject e = sub_id subj \<and> tt_faculty e = faculty_id subj)"
    and "subseq (map attempt_key (db_timetable d')) (attempts (db_batches d) DAYS SLOTS_PER_DAY)"
    and "int (length (db_timetable d')) = gr_scheduled resp"
    and "gr_scheduled resp + gr_unscheduled resp = int (length (db_batches d) * length DAYS * SLOTS_PER_DAY)"
    and "gr_status resp = ''ok''"
    and "d' = d\<lparr>db_timetable := db_timetable d', tt_seq := tt_seq d'\<rparr>"
proof -
  obtain st where 1:
    "advances (gen_env_of rnd d) (map fac_id (db_faculties d)) (tt_seq d)
       (attempts (db_batches d) DAYS SLOTS_PER_DAY) (gen_init d k) st"
    "d' = d\<lparr>db_timetable := pending st, tt_seq := seq st\<rparr>" "k' = rng_pos st"
    "resp = \<lparr>gr_status = ''ok'',
             gr_scheduled = int (length (db_batches d) * length DAYS * SLOTS_PER_DAY) - int (unscheduled st),
             gr_unscheduled = int (unscheduled st)\<rparr>"
    using generate_timetable_Inr [OF assms] by blast
  from 1(1) have inv: "gen_inv (gen_env_of rnd d) (map fac_id (db_faculties d)) (tt_seq d) st"
    and sub: "subseq (map attempt_key (pending st)) (attempts (db_batches d) DAYS SLOTS_PER_DAY)"
    and cnt: "length (pending st) + unscheduled st = length (db_batches d) * length DAYS * SLOTS_PER_DAY"
    by (auto simp: advances_def gen_init_def)
  have tt: "db_timetable d' = pending st" "tt_seq d' = seq st" using 1(2) by simp_all
  from inv show "distinct (map fac_key (db_timetable d'))" by (simp add: gen_inv_def tt)
  from inv show "distinct (map room_key (db_timetable d'))" by (simp add: gen_inv_def tt)
  from inv show "tt_seq d \<le> tt_seq d'" by (simp add: gen_inv_def tt)
  from inv show "map entry_id (db_timetable d') = [Suc (tt_seq d)..<Suc (tt_seq d')]"
    by (simp only: gen_inv_def tt)
  from inv show "\<forall>e\<in>set (db_timetable d'). tt_room e \<in> room_id ` set (db_rooms d) \<and>
           tt_faculty e \<in> fac_id ` set (db_faculties d) \<and>
           (\<exists>subj\<in>set (db_subjects d). tt_subject e = sub_id subj \<and> tt_faculty e = faculty_id subj)"
    by (simp add: gen_inv_def gen_env_of_def tt)
  show "subseq (map attempt_key (db_timetable d')) (attempts (db_batches d) DAYS SLOTS_PER_DAY)"
    using sub tt by simp
  have "int (length (pending st)) =
      int (length (db_batches d) * length DAYS * SLOTS_PER_DAY) - int (unscheduled st)"
    unfolding cnt [symmetric] by simp
  then show "int (length (db_timetable d')) = gr_scheduled resp"
    using 1(4) tt by simp
  show "gr_scheduled resp + gr_unscheduled resp = int (length (db_batches d) * length DAYS * SLOTS_PER_DAY)"
    using 1(4) by simp
  show "gr_status resp = ''ok''" using 1(4) by simp
  show "d' = d\<lparr>db_timetable := db_timetable d', tt_seq := tt_seq d'\<rparr>" using 1(2) by simp
qed

end
