(* ===== verification/Generate.thy ===== *)
theory Generate
  imports Allocator
begin

text \<open>
  Properties of one request to \<open>POST /api/generate\<close> (\<open>generate_timetable\<close>,
  src/app.py lines 187-231), derived from the run invariant of theory \<open>Allocator\<close>:
  which inputs make the request return and which make it raise, what the committed
  timetable satisfies, how much it can hold, and what the subject loop chose.
\<close>

section \<open>A reference for the subject loop\<close>

text \<open>
  The subject loop of lines 210-221 looks the first free room up again for every
  subject. Nothing changes the room table before a placement ends the loop, so the
  lookup could be hoisted: \<open>try_subjects_ref\<close> looks the room up once (when there is a
  subject to try) and takes the first subject whose faculty is not known to be busy.
\<close>

definition try_subjects_ref ::
  "gen_env \<Rightarrow> batch_row \<Rightarrow> string \<Rightarrow> nat \<Rightarrow> subject_row list \<Rightarrow> gen_state \<Rightarrow> (gen_state \<times> bool) py_result" where
  "try_subjects_ref E b d s subs st =
     (if subs = [] then Inr (st, False) else
      case first_free (room_slot st) (env_rooms E) d s of
        Inl err \<Rightarrow> Inl err
      | Inr free_room \<Rightarrow>
          if \<not> py_truthy_str free_room then Inr (st, False) else
          (case find (\<lambda>subj. occ_get (fac_slot st) (faculty_id subj) d s \<noteq> Inr True) subs of
             None \<Rightarrow> Inr (st, False)
           | Some subj \<Rightarrow>
               (case occ_get (fac_slot st) (faculty_id subj) d s of
                  Inl err \<Rightarrow> Inl err
                | Inr busy \<Rightarrow>
                    (case place b d s subj (the free_room) st of
                       Inl err \<Rightarrow> Inl err
                     | Inr st' \<Rightarrow> Inr (st', True)))))"

section \<open>When the request returns\<close>

lemma try_subjects_total:
  assumes inv: "gen_inv E F seq0 st"
    and facs: "\<forall>subj\<in>set (env_subjects E). faculty_id subj \<in> set F"
    and d: "d \<in> set (env_days E)" and s: "s < env_nslots E"
  shows "set subs \<subseteq> set (env_subjects E) \<Longrightarrow> \<exists>st' placed. try_subjects E b d s subs st = Inr (st', placed)"
proof (induction subs)
  case Nil
  then show ?case by auto
next
  case (Cons subj rest)
  have ra: "occ_get (room_slot st) = occ_abs (env_rooms E) (env_days E) (env_nslots E) (room_key ` set (pending st))"
    and fa: "occ_get (fac_slot st) = occ_abs F (env_days E) (env_nslots E) (fac_key ` set (pending st))"
    using inv by (simp_all add: gen_inv_def)
  obtain fr where ff: "first_free (room_slot st) (env_rooms E) d s = Inr fr"
    using first_free_abs [OF ra order_refl d s] by blast
  have subj: "subj \<in> set (env_subjects E)" and rest: "set rest \<subseteq> set (env_subjects E)"
    using Cons.prems by simp_all
  obtain busy where busy: "occ_get (fac_slot st) (faculty_id subj) d s = Inr busy"
    using facs subj d s by (simp add: fa occ_abs_def)
  show ?case
  proof (cases "py_truthy_str fr \<and> \<not> busy")
    case True
    then obtain r where fr: "fr = Some r" "r \<noteq> []" by (cases fr) auto
    from ff fr have room: "occ_get (room_slot st) r d s = Inr False" by (blast dest: first_free_Some)
    from busy True have "occ_get (fac_slot st) (faculty_id subj) d s = Inr False" by simp
    from place_keeps_inv [OF inv subj this room] obtain st'
      where "place b d s subj r st = Inr st'" by blast
    with ff fr busy True show ?thesis by auto
  next
    case False
    with ff busy Cons.IH [OF rest] show ?thesis by (cases "py_truthy_str fr") auto
  qed
qed

lemma attempt_total:
  assumes inv: "gen_inv E F seq0 st"
    and facs: "\<forall>subj\<in>set (env_subjects E). faculty_id subj \<in> set F"
    and d: "d \<in> set (env_days E)" and s: "s < env_nslots E"
  shows "\<exists>st'. attempt E b d s st = Inr st' \<and> gen_inv E F seq0 st'"
proof -
  obtain subs k' where sh: "py_shuffle (env_rnd E) (env_subjects E) (rng_pos st) = (subs, k')"
    by (cases "py_shuffle (env_rnd E) (env_subjects E) (rng_pos st)")
  have "set subs \<subseteq> set (env_subjects E)"
    using py_shuffle_set [of "env_rnd E" "env_subjects E" "rng_pos st"] sh by simp
  moreover have "gen_inv E F seq0 (st\<lparr>rng_pos := k'\<rparr>)" using inv by simp
  ultimately obtain st1 placed where "try_subjects E b d s subs (st\<lparr>rng_pos := k'\<rparr>) = Inr (st1, placed)"
    using try_subjects_total [OF _ facs d s] by blast
  then obtain st' where st': "attempt E b d s st = Inr st'" using sh by (simp add: attempt_def)
  moreover from attempt_keeps_inv [OF st' inv] have "gen_inv E F seq0 st'"
    by (simp add: advances_def)
  ultimately show ?thesis by blast
qed

lemma run_batches_total:
  assumes facs: "\<forall>subj\<in>set (env_subjects E). faculty_id subj \<in> set F"
    and inv: "gen_inv E F seq0 st"
  shows "\<exists>st'. run_batches E bs st = Inr st' \<and> gen_inv E F seq0 st'"
proof -
  have slots: "\<exists>u'. run_slots E b d u = Inr u' \<and> gen_inv E F seq0 u'"
    if "d \<in> set (env_days E)" "gen_inv E F seq0 u" for b d u
    unfolding run_slots_def
    by (rule py_for_total [where I = "gen_inv E F seq0"]) (use attempt_total facs that in auto)
  have days: "\<exists>u'. run_days E b u = Inr u' \<and> gen_inv E F seq0 u'"
    if "gen_inv E F seq0 u" for b u
    unfolding run_days_def
    by (rule py_for_total [where I = "gen_inv E F seq0"]) (use slots that in auto)
  show ?thesis
    unfolding run_batches_def
    by (rule py_for_total [where I = "gen_inv E F seq0"]) (use days inv in auto)
qed

section \<open>Runs in which no room is ever offered\<close>

text \<open>
  When the first free room of every cell is missing or falsy, the subject loop never
  reads a faculty cell and never places: every attempt counts as unscheduled.
\<close>

lemma try_subjects_blocked:
  "first_free (room_slot st) (env_rooms E) d s = Inr fr \<Longrightarrow> \<not> py_truthy_str fr \<Longrightarrow>
   try_subjects E b d s subs st = Inr (st, False)"
  by (induction subs) simp_all

lemma attempt_blocked:
  assumes "first_free (room_slot st) (env_rooms E) d s = Inr fr" and "\<not> py_truthy_str fr"
  shows "\<exists>k'. attempt E b d s st = Inr (st\<lparr>rng_pos := k', unscheduled := Suc (unscheduled st)\<rparr>)"
proof -
  obtain subs k' where sh: "py_shuffle (env_rnd E) (env_subjects E) (rng_pos st) = (subs, k')"
    by (cases "py_shuffle (env_rnd E) (env_subjects E) (rng_pos st)")
  have "try_subjects E b d s subs (st\<lparr>rng_pos := k'\<rparr>) = Inr (st\<lparr>rng_pos := k'\<rparr>, False)"
    by (rule try_subjects_blocked) (use assms in simp_all)
  with sh show ?thesis by (auto simp: attempt_def)
qed

lemma run_batches_blocked:
  assumes blocked: "\<And>d s. d \<in> set (env_days E) \<Longrightarrow> s < env_nslots E \<Longrightarrow>
      \<exists>fr. first_free R (env_rooms E) d s = Inr fr \<and> \<not> py_truthy_str fr"
    and st: "room_slot st = R" "pending st = []"
  shows "\<exists>st'. run_batches E bs st = Inr st' \<and> room_slot st' = R \<and> pending st' = []"
proof -
  let ?I = "\<lambda>u. room_slot u = R \<and> pending u = []"
  have step: "\<exists>u'. attempt E b d s u = Inr u' \<and> ?I u'"
    if "d \<in> set (env_days E)" "s < env_nslots E" "?I u" for b d s u
  proof -
    from blocked [OF that(1,2)] that(3) obtain fr where
      "first_free (room_slot u) (env_rooms E) d s = Inr fr" "\<not> py_truthy_str fr" by auto
    from attempt_blocked [OF this, of b] obtain k'
      where "attempt E b d s u = Inr (u\<lparr>rng_pos := k', unscheduled := Suc (unscheduled u)\<rparr>)"
      by blast
    with that(3) show ?thesis by auto
  qed
  have slots: "\<exists>u'. run_slots E b d u = Inr u' \<and> ?I u'" if "d \<in> set (env_days E)" "?I u" for b d u
    unfolding run_slots_def
    by (rule py_for_total [where I = ?I]) (use step that in auto)
  have days: "\<exists>u'. run_days E b u = Inr u' \<and> ?I u'" if "?I u" for b u
    unfolding run_days_def
    by (rule py_for_total [where I = ?I]) (use slots that in auto)
  show ?thesis
    unfolding run_batches_def
    by (rule py_for_total [where I = ?I]) (use days st in auto)
qed

lemma generate_blocked:
  assumes "\<And>day s. day \<in> set DAYS \<Longrightarrow> s < SLOTS_PER_DAY \<Longrightarrow>
      \<exists>fr. first_free (init_occ (map room_id (db_rooms d)) DAYS SLOTS_PER_DAY) (map room_id (db_rooms d)) day s = Inr fr
           \<and> \<not> py_truthy_str fr"
  shows "\<exists>d' k' resp. generate_timetable rnd k d = Inr (d', k', resp) \<and> db_timetable d' = [] \<and>
           gr_scheduled resp = 0 \<and>
           gr_unscheduled resp = int (length (db_batches d) * length DAYS * SLOTS_PER_DAY)"
proof -
  from run_batches_blocked [of "gen_env_of rnd d" "init_occ (map room_id (db_rooms d)) DAYS SLOTS_PER_DAY"
      "gen_init d k" "db_batches d"] assms
  obtain st where run: "run_batches (gen_env_of rnd d) (db_batches d) (gen_init d k) = Inr st"
    and "pending st = []"
    by (auto simp: gen_env_of_def gen_init_def)
  then obtain d' k' resp where g: "generate_timetable rnd k d = Inr (d', k', resp)"
    and "db_timetable d' = []"
    by (simp add: generate_timetable_def)
  with generate_timetable_inv(7,8) [OF g] show ?thesis by fastforce
qed

section \<open>What the committed timetable holds\<close>

lemma generate_entry_cell:
  assumes g: "generate_timetable rnd k d = Inr (d', k', resp)" and e: "e \<in> set (db_timetable d')"
  shows "tt_batch e \<in> batch_id ` set (db_batches d) \<and> tt_day e \<in> set DAYS \<and>
         1 \<le> tt_slot e \<and> tt_slot e \<le> int SLOTS_PER_DAY"
proof -
  have "attempt_key e \<in> set (attempts (db_batches d) DAYS SLOTS_PER_DAY)"
    using subseq_set [OF generate_timetable_inv(6) [OF g]] e by auto
  then show ?thesis by (auto simp: set_attempts attempt_key_def)
qed

text \<open>With unique batch ids a run commits at most one row per attempt.\<close>

lemma generate_attempt_keys_distinct:
  assumes g: "generate_timetable rnd k d = Inr (d', k', resp)"
    and b: "distinct (map batch_id (db_batches d))"
  shows "distinct (map attempt_key (db_timetable d'))"
proof -
  have "distinct DAYS" by (simp add: DAYS_def)
  with b have "distinct (attempts (db_batches d) DAYS SLOTS_PER_DAY)" by (rule distinct_attempts)
  with generate_timetable_inv(6) [OF g] show ?thesis by (rule subseq_distinct)
qed

lemma length_le_card:
  "distinct (map f xs) \<Longrightarrow> f ` set xs \<subseteq> A \<Longrightarrow> finite A \<Longrightarrow> length xs \<le> card A"
  by (metis card_mono distinct_card length_map set_map)

lemma card_cells: "card (set K \<times> set D \<times> {1..int n}) \<le> length K * length D * n"
proof -
  have "card (set K \<times> set D \<times> {1..int n}) = card (set K) * (card (set D) * n)"
    by (simp add: card_cartesian_product)
  also have "\<dots> \<le> length K * (length D * n)"
    by (intro mult_le_mono card_length order_refl)
  finally show ?thesis by (simp add: mult.assoc)
qed

lemma committed_le_rooms:
  assumes g: "generate_timetable rnd k d = Inr (d', k', resp)"
  shows "length (db_timetable d') \<le> length (db_rooms d) * length DAYS * SLOTS_PER_DAY"
proof -
  let ?T = "db_timetable d'" and ?S = "{1..int SLOTS_PER_DAY}"
  have "room_key ` set ?T \<subseteq> set (map room_id (db_rooms d)) \<times> set DAYS \<times> ?S"
    using generate_entry_cell [OF g] generate_timetable_inv(5) [OF g] by (auto simp: room_key_def)
  then have "length ?T \<le> card (set (map room_id (db_rooms d)) \<times> set DAYS \<times> ?S)"
    by (rule length_le_card [OF generate_timetable_inv(2) [OF g]]) simp
  then have "length ?T \<le> length (map room_id (db_rooms d)) * length DAYS * SLOTS_PER_DAY"
    by (rule order_trans [OF _ card_cells])
  then show ?thesis by simp
qed

section \<open>What the subject loop chose\<close>

lemma try_subjects_placed:
  "try_subjects E b d s subs st = Inr (st', True) \<Longrightarrow>
   \<exists>pre subj post r. subs = pre @ subj # post \<and>
      first_free (room_slot st) (env_rooms E) d s = Inr (Some r) \<and> r \<noteq> [] \<and>
      (\<forall>p\<in>set pre. occ_get (fac_slot st) (faculty_id p) d s = Inr True) \<and>
      occ_get (fac_slot st) (faculty_id subj) d s = Inr False \<and> place b d s subj r st = Inr st'"
proof (induction subs)
  case Nil
  then show ?case by simp
next
  case (Cons subj rest)
  from Cons.prems obtain fr where ff: "first_free (room_slot st) (env_rooms E) d s = Inr fr"
    by (cases "first_free (room_slot st) (env_rooms E) d s") auto
  show ?case
  proof (cases "py_truthy_str fr")
    case False
    with Cons.prems ff have "try_subjects E b d s rest st = Inr (st', True)" by simp
    from Cons.IH [OF this] ff False show ?thesis by auto
  next
    case True
    then obtain r where fr: "fr = Some r" "r \<noteq> []" by (cases fr) auto
    from Cons.prems ff fr obtain busy where busy: "occ_get (fac_slot st) (faculty_id subj) d s = Inr busy"
      by (cases "occ_get (fac_slot st) (faculty_id subj) d s") auto
    show ?thesis
    proof (cases busy)
      case True
      with Cons.prems ff fr busy have "try_subjects E b d s rest st = Inr (st', True)" by simp
      from Cons.IH [OF this] obtain pre subj' post r' where
        "rest = pre @ subj' # post" "first_free (room_slot st) (env_rooms E) d s = Inr (Some r')" "r' \<noteq> []"
        "\<forall>p\<in>set pre. occ_get (fac_slot st) (faculty_id p) d s = Inr True"
        "occ_get (fac_slot st) (faculty_id subj') d s = Inr False" "place b d s subj' r' st = Inr st'"
        by blast
      with busy True show ?thesis by (intro exI [of _ "subj # pre"]) auto
    next
      case False
      with Cons.prems ff fr busy have "place b d s subj r st = Inr st'"
        by (auto split: sum.splits)
      with ff fr busy False show ?thesis by (intro exI [of _ "[]"]) auto
    qed
  qed
qed

lemma try_subjects_unplaced:
  "try_subjects E b d s subs st = Inr (st', False) \<Longrightarrow>
   st' = st \<and> (\<forall>subj\<in>set subs.
      (\<exists>fr. first_free (room_slot st) (env_rooms E) d s = Inr fr \<and> \<not> py_truthy_str fr) \<or>
      occ_get (fac_slot st) (faculty_id subj) d s = Inr True)"
proof (induction subs)
  case Nil
  then show ?case by simp
next
  case (Cons subj rest)
  from Cons.prems obtain fr where ff: "first_free (room_slot st) (env_rooms E) d s = Inr fr"
    by (cases "first_free (room_slot st) (env_rooms E) d s") auto
  show ?case
  proof (cases "py_truthy_str fr")
    case False
    with Cons.prems ff have "try_subjects E b d s rest st = Inr (st', False)" by simp
    from Cons.IH [OF this] ff False show ?thesis by auto
  next
    case True
    then obtain r where fr: "fr = Some r" "r \<noteq> []" by (cases fr) auto
    from Cons.prems ff fr obtain busy where busy: "occ_get (fac_slot st) (faculty_id subj) d s = Inr busy"
      by (cases "occ_get (fac_slot st) (faculty_id subj) d s") auto
    from Cons.prems ff fr busy have "busy" by (cases busy) (auto split: sum.splits)
    with Cons.prems ff fr busy have "try_subjects E b d s rest st = Inr (st', False)" by simp
    from Cons.IH [OF this] busy \<open>busy\<close> show ?thesis by auto
  qed
qed

section \<open>Properties of the request\<close>

text \<open>
  C1. No faculty member is double-booked: in the timetable a successful request commits,
  no two rows share a (faculty, day, slot).
\<close>

theorem no_faculty_double_booking:
  "generate_timetable rnd k d = Inr (d', k', resp) \<Longrightarrow> distinct (map fac_key (db_timetable d'))"
  by (rule generate_timetable_inv(1))

text \<open>
  C2. No room is double-booked: no two committed rows share a (room, day, slot).
\<close>

theorem no_room_double_booking:
  "generate_timetable rnd k d = Inr (d', k', resp) \<Longrightarrow> distinct (map room_key (db_timetable d'))"
  by (rule generate_timetable_inv(2))

text \<open>
  C3. Completeness of attempts and the reported counts: \<open>scheduled + unscheduled\<close> is
  \<open>|batches| \<times> |DAYS| \<times> SLOTS_PER_DAY\<close>, \<open>scheduled\<close> is the number of committed rows,
  hence never negative, and the status is \<open>"ok"\<close>.
\<close>

theorem generate_counts:
  "generate_timetable rnd k d = Inr (d', k', resp) \<Longrightarrow>
   gr_scheduled resp + gr_unscheduled resp = int (length (db_batches d) * length DAYS * SLOTS_PER_DAY) \<and>
   gr_scheduled resp = int (length (db_timetable d')) \<and> 0 \<le> gr_scheduled resp \<and> gr_status resp = ''ok''"
  using generate_timetable_inv(7-9) [of rnd k d d' k' resp] by simp

text \<open>
  C4. Attempt order and at most one row per attempt: read by (batch, day, slot), the
  committed rows are a subsequence of the attempts in loop order (batches in table order,
  \<open>DAYS\<close> in order, slots ascending); when batch ids are unique, as the primary key makes
  them, no attempt has two rows.
\<close>

theorem generate_attempt_order:
  "generate_timetable rnd k d = Inr (d', k', resp) \<Longrightarrow>
   subseq (map attempt_key (db_timetable d')) (attempts (db_batches d) DAYS SLOTS_PER_DAY) \<and>
   (distinct (map batch_id (db_batches d)) \<longrightarrow> distinct (map attempt_key (db_timetable d')))"
proof -
  assume g: "generate_timetable rnd k d = Inr (d', k', resp)"
  then show ?thesis
    using generate_timetable_inv(6) [OF g] generate_attempt_keys_distinct [OF g] by blast
qed

text \<open>
  C5. The request returns whenever every subject's faculty id names a faculty row: the
  run raises no \<open>KeyError\<close> or \<open>IndexError\<close>, whatever the generator draws.
\<close>

theorem generate_returns_when_faculties_resolve:
  "\<forall>subj\<in>set (db_subjects d). faculty_id subj \<in> fac_id ` set (db_faculties d) \<Longrightarrow>
   \<exists>d' k' resp. generate_timetable rnd k d = Inr (d', k', resp)"
proof -
  assume facs: "\<forall>subj\<in>set (db_subjects d). faculty_id subj \<in> fac_id ` set (db_faculties d)"
  have "\<forall>subj\<in>set (env_subjects (gen_env_of rnd d)). faculty_id subj \<in> set (map fac_id (db_faculties d))"
    using facs by (simp add: gen_env_of_def)
  from run_batches_total [OF this gen_inv_init] obtain st
    where "run_batches (gen_env_of rnd d) (db_batches d) (gen_init d k) = Inr st" by blast
  then show ?thesis by (simp add: generate_timetable_def)
qed

text \<open>
  C6. A subject whose faculty id names no faculty row is not silently excluded, as the
  spec (sections 7 and 9) describes: the lookup \<open>global_fac_slot[fac_id]\<close> raises
  \<open>KeyError\<close>. If every subject dangles and the first room has a non-empty id, the first
  attempt raises and the whole request fails, whatever the generator draws.
\<close>

theorem generate_dangling_faculty_raises:
  assumes b: "db_batches d \<noteq> []" and subjs: "db_subjects d \<noteq> []"
    and dangling: "\<forall>subj\<in>set (db_subjects d). faculty_id subj \<notin> fac_id ` set (db_faculties d)"
    and rooms: "db_rooms d \<noteq> []" and r0: "room_id (hd (db_rooms d)) \<noteq> []"
  shows "generate_timetable rnd k d = Inl KeyError"
proof -
  let ?E = "gen_env_of rnd d" and ?st = "gen_init d k"
  obtain bt bs where B: "db_batches d = bt # bs" using b by (cases "db_batches d") auto
  obtain r rs where R: "db_rooms d = r # rs" using rooms by (cases "db_rooms d") auto
  obtain subs k' where sh: "py_shuffle rnd (db_subjects d) k = (subs, k')"
    by (cases "py_shuffle rnd (db_subjects d) k")
  have "length subs = length (db_subjects d)"
    using py_shuffle_length [of rnd "db_subjects d" k] sh by simp
  with subjs obtain subj rest where S: "subs = subj # rest" by (cases subs) auto
  have "subj \<in> set (db_subjects d)" using py_shuffle_set [of rnd "db_subjects d" k] sh S by auto
  with dangling have fk: "faculty_id subj \<notin> set (map fac_id (db_faculties d))" by auto
  have ff: "first_free (room_slot (?st\<lparr>rng_pos := k'\<rparr>)) (env_rooms ?E) ''Monday'' 0 = Inr (Some (room_id r))"
    by (simp add: gen_init_def gen_env_of_def occ_get_init occ_abs_def R DAYS_def SLOTS_PER_DAY_def)
  have fb: "occ_get (fac_slot (?st\<lparr>rng_pos := k'\<rparr>)) (faculty_id subj) ''Monday'' 0 = Inl KeyError"
    using fk by (simp add: gen_init_def occ_get_init occ_abs_def)
  have "try_subjects ?E bt ''Monday'' 0 subs (?st\<lparr>rng_pos := k'\<rparr>) = Inl KeyError"
    using ff fb r0 R S by simp
  moreover have "py_shuffle (env_rnd ?E) (env_subjects ?E) (rng_pos ?st) = (subs, k')"
    using sh by (simp add: gen_env_of_def gen_init_def)
  ultimately have a: "attempt ?E bt ''Monday'' 0 ?st = Inl KeyError" by (simp add: attempt_def)
  have "[0..<env_nslots ?E] = 0 # [1..<env_nslots ?E]"
    by (simp add: gen_env_of_def SLOTS_PER_DAY_def upt_conv_Cons)
  with a have "run_slots ?E bt ''Monday'' ?st = Inl KeyError" by (simp add: run_slots_def)
  moreover have "env_days ?E = ''Monday'' # tl DAYS" by (simp add: gen_env_of_def DAYS_def)
  ultimately have "run_days ?E bt ?st = Inl KeyError" by (simp add: run_days_def)
  then have "run_batches ?E (db_batches d) ?st = Inl KeyError" by (simp add: run_batches_def B)
  then show ?thesis by (simp add: generate_timetable_def)
qed

text \<open>
  C7. Room exhaustion: with no rooms, the request returns (also with dangling faculty
  ids, which are then never looked up), commits no row, reports \<open>scheduled = 0\<close> and
  every attempt as unscheduled.
\<close>

theorem generate_without_rooms:
  "db_rooms d = [] \<Longrightarrow>
   \<exists>d' k' resp. generate_timetable rnd k d = Inr (d', k', resp) \<and> db_timetable d' = [] \<and>
     gr_scheduled resp = 0 \<and> gr_unscheduled resp = int (length (db_batches d) * length DAYS * SLOTS_PER_DAY)"
  by (rule generate_blocked) simp

text \<open>
  C8. Capacity bound: a run commits at most one row per (room, day, slot) and per
  (faculty, day, slot), so at most \<open>|rooms| \<times> |DAYS| \<times> SLOTS_PER_DAY\<close> and at most
  \<open>|faculties| \<times> |DAYS| \<times> SLOTS_PER_DAY\<close> rows.
\<close>

theorem generate_capacity_bound:
  assumes g: "generate_timetable rnd k d = Inr (d', k', resp)"
  shows "length (db_timetable d') \<le> length (db_rooms d) * length DAYS * SLOTS_PER_DAY \<and>
         length (db_timetable d') \<le> length (db_faculties d) * length DAYS * SLOTS_PER_DAY"
proof -
  let ?T = "db_timetable d'" and ?S = "{1..int SLOTS_PER_DAY}"
  have "fac_key ` set ?T \<subseteq> set (map fac_id (db_faculties d)) \<times> set DAYS \<times> ?S"
    using generate_entry_cell [OF g] generate_timetable_inv(5) [OF g] by (auto simp: fac_key_def)
  then have "length ?T \<le> card (set (map fac_id (db_faculties d)) \<times> set DAYS \<times> ?S)"
    by (rule length_le_card [OF generate_timetable_inv(1) [OF g]]) simp
  then have "length ?T \<le> length (map fac_id (db_faculties d)) * length DAYS * SLOTS_PER_DAY"
    by (rule order_trans [OF _ card_cells])
  with committed_le_rooms [OF g] show ?thesis by simp
qed

text \<open>
  C9. Single-room saturation (spec, section 8): with exactly one room and two batches,
  at most 30 rows are committed and at least 30 attempts are reported unscheduled.
\<close>

theorem single_room_saturation:
  assumes g: "generate_timetable rnd k d = Inr (d', k', resp)"
    and "length (db_rooms d) = 1" and "length (db_batches d) = 2"
  shows "length (db_timetable d') \<le> 30 \<and> 30 \<le> gr_unscheduled resp"
proof -
  have le: "length (db_timetable d') \<le> 30"
    using committed_le_rooms [OF g] assms(2) by (simp add: DAYS_def SLOTS_PER_DAY_def)
  moreover have "gr_scheduled resp + gr_unscheduled resp = 60"
    using generate_timetable_inv(8) [OF g] assms(3) by (simp add: DAYS_def SLOTS_PER_DAY_def)
  moreover have "gr_scheduled resp = int (length (db_timetable d'))"
    using generate_timetable_inv(7) [OF g] by simp
  ultimately show ?thesis by linarith
qed

text \<open>
  C10. A room whose id is the empty string blocks the whole run: it is falsy in
  \<open>if free_room and ...\<close>, so when it is the first room of the table it is the first free
  room of every cell (it is never marked) and no attempt is ever placed, even though
  later rooms and every faculty are free.
\<close>

theorem generate_empty_room_id_blocks:
  "db_rooms d \<noteq> [] \<Longrightarrow> room_id (hd (db_rooms d)) = [] \<Longrightarrow>
   \<exists>d' k' resp. generate_timetable rnd k d = Inr (d', k', resp) \<and> db_timetable d' = [] \<and>
     gr_scheduled resp = 0 \<and> gr_unscheduled resp = int (length (db_batches d) * length DAYS * SLOTS_PER_DAY)"
proof -
  assume ne: "db_rooms d \<noteq> []" and e: "room_id (hd (db_rooms d)) = []"
  obtain r rs where R: "db_rooms d = r # rs" using ne by (cases "db_rooms d") auto
  show ?thesis
  proof (rule generate_blocked)
    fix day s assume "day \<in> set DAYS" "s < SLOTS_PER_DAY"
    then have "occ_get (init_occ (map room_id (db_rooms d)) DAYS SLOTS_PER_DAY) (room_id r) day s = Inr False"
      by (simp add: occ_get_init occ_abs_def R)
    then have "first_free (init_occ (map room_id (db_rooms d)) DAYS SLOTS_PER_DAY) (map room_id (db_rooms d)) day s
        = Inr (Some (room_id r))"
      by (simp add: R)
    with e R show "\<exists>fr. first_free (init_occ (map room_id (db_rooms d)) DAYS SLOTS_PER_DAY)
        (map room_id (db_rooms d)) day s = Inr fr \<and> \<not> py_truthy_str fr"
      by simp
  qed
qed

text \<open>
  C11. Full replace: the committed rows are exactly the rows of this run, with fresh
  ids \<open>tt_seq + 1, tt_seq + 2, \<dots>\<close>; the entity tables are untouched; so no row of the
  previous timetable, whose ids are at most the old \<open>tt_seq\<close>, survives.
\<close>

theorem generate_full_replace:
  assumes g: "generate_timetable rnd k d = Inr (d', k', resp)"
  shows "map entry_id (db_timetable d') = [Suc (tt_seq d)..<Suc (tt_seq d')] \<and>
         d' = d\<lparr>db_timetable := db_timetable d', tt_seq := tt_seq d'\<rparr> \<and>
         ((\<forall>e\<in>set (db_timetable d). entry_id e \<le> tt_seq d) \<longrightarrow>
            set (db_timetable d) \<inter> set (db_timetable d') = {})"
proof -
  note ids = generate_timetable_inv(4) [OF g]
  have "\<forall>e\<in>set (db_timetable d'). tt_seq d < entry_id e"
  proof
    fix e assume "e \<in> set (db_timetable d')"
    then have "entry_id e \<in> set (map entry_id (db_timetable d'))" by simp
    then have "entry_id e \<in> {Suc (tt_seq d)..<Suc (tt_seq d')}" by (simp only: ids set_upt)
    then show "tt_seq d < entry_id e" by simp
  qed
  then have "(\<forall>e\<in>set (db_timetable d). entry_id e \<le> tt_seq d) \<longrightarrow>
            set (db_timetable d) \<inter> set (db_timetable d') = {}"
    by (meson disjoint_iff leD)
  with ids generate_timetable_inv(10) [OF g] show ?thesis by blast
qed

text \<open>
  C12. Every committed row is well formed: its batch is a batch of the table, its day one
  of \<open>DAYS\<close>, its slot in \<open>1..SLOTS_PER_DAY\<close>, its room and faculty exist, and it names a
  subject whose assigned faculty is the row's faculty.
\<close>

theorem generate_entries_well_formed:
  assumes g: "generate_timetable rnd k d = Inr (d', k', resp)"
  shows "\<forall>e\<in>set (db_timetable d').
     tt_batch e \<in> batch_id ` set (db_batches d) \<and> tt_day e \<in> set DAYS \<and>
     1 \<le> tt_slot e \<and> tt_slot e \<le> int SLOTS_PER_DAY \<and>
     tt_room e \<in> room_id ` set (db_rooms d) \<and> tt_faculty e \<in> fac_id ` set (db_faculties d) \<and>
     (\<exists>subj\<in>set (db_subjects d). tt_subject e = sub_id subj \<and> tt_faculty e = faculty_id subj)"
  using generate_entry_cell [OF g] generate_timetable_inv(5) [OF g] by blast

text \<open>
  C13. The subject loop of one attempt: if it places, the placed subject is the first of
  the shuffled list whose faculty is free, every subject before it has a busy faculty,
  and the room is the first free room, which is truthy; if it does not place, the state
  is unchanged and for every subject either no truthy room was free or its faculty was
  busy.
\<close>

theorem try_subjects_outcome:
  "try_subjects E b d s subs st = Inr (st', placed) \<Longrightarrow>
   (if placed then
      \<exists>pre subj post r. subs = pre @ subj # post \<and>
        first_free (room_slot st) (env_rooms E) d s = Inr (Some r) \<and> r \<noteq> [] \<and>
        (\<forall>p\<in>set pre. occ_get (fac_slot st) (faculty_id p) d s = Inr True) \<and>
        occ_get (fac_slot st) (faculty_id subj) d s = Inr False \<and> place b d s subj r st = Inr st'
    else st' = st \<and> (\<forall>subj\<in>set subs.
      (\<exists>fr. first_free (room_slot st) (env_rooms E) d s = Inr fr \<and> \<not> py_truthy_str fr) \<or>
      occ_get (fac_slot st) (faculty_id subj) d s = Inr True))"
proof -
  assume t: "try_subjects E b d s subs st = Inr (st', placed)"
  show ?thesis
  proof (cases placed)
    case True
    with t have "try_subjects E b d s subs st = Inr (st', True)" by simp
    from try_subjects_placed [OF this] True show ?thesis by simp
  next
    case False
    with t have "try_subjects E b d s subs st = Inr (st', False)" by simp
    from try_subjects_unplaced [OF this] False show ?thesis by simp
  qed
qed



section \<open>What a request can raise\<close>

text \<open>
  Under the run invariant the rooms of a run are keys of the room table, days are days
  of the grid and slots are in range, so the only exception of a run is the
  \<open>KeyError\<close> of a faculty id that names no faculty.
\<close>

lemma try_subjects_raises:
  assumes inv: "gen_inv E F seq0 st"
    and d: "d \<in> set (env_days E)" and s: "s < env_nslots E"
  shows "set subs \<subseteq> set (env_subjects E) \<Longrightarrow> try_subjects E b d s subs st = Inl e \<Longrightarrow> e = KeyError"
proof (induction subs)
  case Nil
  then show ?case by simp
next
  case (Cons subj rest)
  have ra: "occ_get (room_slot st) = occ_abs (env_rooms E) (env_days E) (env_nslots E) (room_key ` set (pending st))"
    and fa: "occ_get (fac_slot st) = occ_abs F (env_days E) (env_nslots E) (fac_key ` set (pending st))"
    using inv by (simp_all add: gen_inv_def)
  obtain fr where ff: "first_free (room_slot st) (env_rooms E) d s = Inr fr"
    using first_free_abs [OF ra order_refl d s] by blast
  have subj: "subj \<in> set (env_subjects E)" and rest: "set rest \<subseteq> set (env_subjects E)"
    using Cons.prems(1) by simp_all
  have fac: "occ_get (fac_slot st) (faculty_id subj) d s = Inl KeyError \<or>
      (\<exists>busy. occ_get (fac_slot st) (faculty_id subj) d s = Inr busy)"
    using d s by (auto simp: fa occ_abs_def)
  show ?case
  proof (cases "py_truthy_str fr")
    case False
    with ff Cons.prems(2) Cons.IH [OF rest] show ?thesis by simp
  next
    case True
    then obtain r where fr: "fr = Some r" "r \<noteq> []" by (cases fr) auto
    from fac show ?thesis
    proof
      assume "occ_get (fac_slot st) (faculty_id subj) d s = Inl KeyError"
      with ff fr Cons.prems(2) show ?thesis by simp
    next
      assume "\<exists>busy. occ_get (fac_slot st) (faculty_id subj) d s = Inr busy"
      then obtain busy where busy: "occ_get (fac_slot st) (faculty_id subj) d s = Inr busy" by blast
      show ?thesis
      proof (cases busy)
        case True
        with ff fr busy Cons.prems(2) Cons.IH [OF rest] show ?thesis by simp
      next
        case False
        from ff fr have room: "occ_get (room_slot st) r d s = Inr False" by (blast dest: first_free_Some)
        from busy False have "occ_get (fac_slot st) (faculty_id subj) d s = Inr False" by simp
        from place_keeps_inv [OF inv subj this room] obtain st'
          where "place b d s subj r st = Inr st'" by blast
        with ff fr busy False Cons.prems(2) show ?thesis by simp
      qed
    qed
  qed
qed

lemma attempt_raises:
  assumes run: "attempt E b d s st = Inl e" and inv: "gen_inv E F seq0 st"
    and d: "d \<in> set (env_days E)" and s: "s < env_nslots E"
  shows "e = KeyError"
proof -
  obtain subs k' where sh: "py_shuffle (env_rnd E) (env_subjects E) (rng_pos st) = (subs, k')"
    by (cases "py_shuffle (env_rnd E) (env_subjects E) (rng_pos st)")
  have subs: "set subs \<subseteq> set (env_subjects E)"
    using py_shuffle_set [of "env_rnd E" "env_subjects E" "rng_pos st"] sh by simp
  have inv1: "gen_inv E F seq0 (st\<lparr>rng_pos := k'\<rparr>)" using inv by simp
  from run sh have "try_subjects E b d s subs (st\<lparr>rng_pos := k'\<rparr>) = Inl e"
    by (auto simp: attempt_def split: sum.splits)
  from try_subjects_raises [OF inv1 d s subs this] show ?thesis .
qed

lemma run_batches_raises:
  assumes run: "run_batches E bs st = Inl e" and inv: "gen_inv E F seq0 st"
  shows "e = KeyError"
proof -
  have slots: "e' = KeyError" if "run_slots E b d u = Inl e'" "d \<in> set (env_days E)" "gen_inv E F seq0 u"
    for b d u e'
    by (rule py_for_raises [where I = "gen_inv E F seq0" and f = "attempt E b d", OF _ _ that(1) [unfolded run_slots_def] that(3)])
       (use attempt_keeps_inv [unfolded advances_def] attempt_raises that(2) in auto)
  have days: "e' = KeyError" if "run_days E b u = Inl e'" "gen_inv E F seq0 u" for b u e'
    by (rule py_for_raises [where I = "gen_inv E F seq0" and f = "run_slots E b", OF _ _ that(1) [unfolded run_days_def] that(2)])
       (use run_slots_advances [unfolded advances_def] slots in auto)
  show ?thesis
    by (rule py_for_raises [where I = "gen_inv E F seq0" and f = "run_days E", OF _ _ run [unfolded run_batches_def] inv])
       (use run_days_advances [unfolded advances_def] days in auto)
qed

lemma generate_raises_KeyError:
  "generate_timetable rnd k d = Inl e \<Longrightarrow> e = KeyError"
  by (rule run_batches_raises [OF _ gen_inv_init]) (simp add: generate_timetable_def split: sum.splits)

section \<open>Progress\<close>

text \<open>
  The first attempt of a run (the first batch, Monday, slot index 0) places the first
  shuffled subject in the first room, when that room's id is truthy and the subject's
  faculty exists: every cell is free at the start.
\<close>

lemma first_attempt_places:
  assumes facs: "\<forall>subj\<in>set (db_subjects d). faculty_id subj \<in> fac_id ` set (db_faculties d)"
    and subjs: "db_subjects d \<noteq> []" and R: "db_rooms d = r # rs" and r0: "room_id r \<noteq> []"
  shows "\<exists>st1 subj. attempt (gen_env_of rnd d) bt ''Monday'' 0 (gen_init d k) = Inr st1 \<and>
     pending st1 = [new_entry (Suc (tt_seq d)) bt ''Monday'' 0 subj (room_id r)]"
proof -
  let ?E = "gen_env_of rnd d" and ?st = "gen_init d k"
  obtain subs k' where sh: "py_shuffle rnd (db_subjects d) k = (subs, k')"
    by (cases "py_shuffle rnd (db_subjects d) k")
  have "length subs = length (db_subjects d)"
    using py_shuffle_length [of rnd "db_subjects d" k] sh by simp
  with subjs obtain subj rest where S: "subs = subj # rest" by (cases subs) auto
  have "subj \<in> set (db_subjects d)" using py_shuffle_set [of rnd "db_subjects d" k] sh S by auto
  with facs have fk: "faculty_id subj \<in> set (map fac_id (db_faculties d))" by auto
  let ?st1 = "?st\<lparr>rng_pos := k'\<rparr>"
  have ff: "first_free (room_slot ?st1) (env_rooms ?E) ''Monday'' 0 = Inr (Some (room_id r))"
    by (simp add: gen_init_def gen_env_of_def occ_get_init occ_abs_def R DAYS_def SLOTS_PER_DAY_def)
  have fb: "occ_get (fac_slot ?st1) (faculty_id subj) ''Monday'' 0 = Inr False"
    using fk by (simp add: gen_init_def occ_get_init occ_abs_def DAYS_def SLOTS_PER_DAY_def)
  obtain fm where fm: "occ_set (fac_slot ?st1) (faculty_id subj) ''Monday'' 0 = Inr fm"
    using occ_set_defined [OF fb] by blast
  have "occ_get (room_slot ?st1) (room_id r) ''Monday'' 0 = Inr False"
    using first_free_Some [OF ff] by simp
  then obtain rm where rm: "occ_set (room_slot ?st1) (room_id r) ''Monday'' 0 = Inr rm"
    using occ_set_defined by blast
  let ?e = "new_entry (Suc (tt_seq d)) bt ''Monday'' 0 subj (room_id r)"
  have pl: "place bt ''Monday'' 0 subj (room_id r) ?st1 =
      Inr (?st1\<lparr>pending := [?e], seq := Suc (seq ?st1), fac_slot := fm, room_slot := rm\<rparr>)"
    using fm rm by (simp add: place_def gen_init_def)
  have "try_subjects ?E bt ''Monday'' 0 subs ?st1 =
      Inr (?st1\<lparr>pending := [?e], seq := Suc (seq ?st1), fac_slot := fm, room_slot := rm\<rparr>, True)"
    using ff fb pl r0 S by simp
  moreover have "py_shuffle (env_rnd ?E) (env_subjects ?E) (rng_pos ?st) = (subs, k')"
    using sh by (simp add: gen_env_of_def gen_init_def)
  ultimately show ?thesis by (auto simp: attempt_def)
qed

lemma generate_first_row:
  assumes facs: "\<forall>subj\<in>set (db_subjects d). faculty_id subj \<in> fac_id ` set (db_faculties d)"
    and b: "db_batches d \<noteq> []" and subjs: "db_subjects d \<noteq> []"
    and rooms: "db_rooms d \<noteq> []" and r0: "room_id (hd (db_rooms d)) \<noteq> []"
  shows "\<exists>d' k' resp. generate_timetable rnd k d = Inr (d', k', resp) \<and> db_timetable d' \<noteq> [] \<and>
     attempt_key (hd (db_timetable d')) = (batch_id (hd (db_batches d)), hd DAYS, 1) \<and>
     tt_room (hd (db_timetable d')) = room_id (hd (db_rooms d))"
proof -
  let ?E = "gen_env_of rnd d" and ?st = "gen_init d k" and ?F = "map fac_id (db_faculties d)"
  obtain bt bs where B: "db_batches d = bt # bs" using b by (cases "db_batches d") auto
  obtain r rs where R: "db_rooms d = r # rs" using rooms by (cases "db_rooms d") auto
  have r0': "room_id r \<noteq> []" using r0 R by simp
  from first_attempt_places [OF facs subjs R r0', of rnd bt k] obtain st1 subj where
    a1: "attempt ?E bt ''Monday'' 0 ?st = Inr st1"
    and p1: "pending st1 = [new_entry (Suc (tt_seq d)) bt ''Monday'' 0 subj (room_id r)]"
    by blast
  have facs': "\<forall>subj\<in>set (env_subjects ?E). faculty_id subj \<in> set ?F"
    using facs by (simp add: gen_env_of_def)
  from run_batches_total [OF facs' gen_inv_init] obtain st
    where run: "run_batches ?E (db_batches d) ?st = Inr st" by blast
  have inv1: "gen_inv ?E ?F (tt_seq d) st1"
    using attempt_keeps_inv [OF a1 gen_inv_init] by (simp add: advances_def)
  have days: "env_days ?E = ''Monday'' # tl DAYS" and slots: "[0..<env_nslots ?E] = 0 # [1..<env_nslots ?E]"
    by (simp_all add: gen_env_of_def DAYS_def SLOTS_PER_DAY_def upt_conv_Cons)
  have "py_for (run_days ?E) (bt # bs) ?st = Inr st" using run by (simp only: run_batches_def B)
  from py_for_Cons_Inr [OF this] obtain st3 where d1: "run_days ?E bt ?st = Inr st3"
    and r3: "run_batches ?E bs st3 = Inr st"
    by (auto simp only: run_batches_def)
  have "py_for (run_slots ?E bt) (''Monday'' # tl DAYS) ?st = Inr st3" using d1 by (simp only: run_days_def days)
  from py_for_Cons_Inr [OF this] obtain st2 where s1: "run_slots ?E bt ''Monday'' ?st = Inr st2"
    and r2: "py_for (run_slots ?E bt) (tl DAYS) st2 = Inr st3"
    by blast
  have "py_for (attempt ?E bt ''Monday'') (0 # [1..<env_nslots ?E]) ?st = Inr st2"
    using s1 by (simp only: run_slots_def slots)
  from py_for_Cons_Inr [OF this] a1 have r1: "py_for (attempt ?E bt ''Monday'') [1..<env_nslots ?E] st1 = Inr st2"
    by auto
  have adv2: "advances ?E ?F (tt_seq d) (concat (map (\<lambda>s. [(batch_id bt, ''Monday'', int s + 1)]) [1..<env_nslots ?E])) st1 st2"
    by (rule loop_advances [OF attempt_keeps_inv r1 inv1])
  have inv2: "gen_inv ?E ?F (tt_seq d) st2" using adv2 by (simp add: advances_def)
  have adv3: "advances ?E ?F (tt_seq d) (concat (map (\<lambda>dy. slot_attempts bt dy (env_nslots ?E)) (tl DAYS))) st2 st3"
    by (rule loop_advances [OF run_slots_advances r2 inv2])
  have inv3: "gen_inv ?E ?F (tt_seq d) st3" using adv3 by (simp add: advances_def)
  have "advances ?E ?F (tt_seq d) (attempts bs (env_days ?E) (env_nslots ?E)) st3 st"
    by (rule run_batches_advances [OF r3 inv3])
  with adv2 adv3 p1 obtain new where pst: "pending st = new_entry (Suc (tt_seq d)) bt ''Monday'' 0 subj (room_id r) # new"
    by (auto simp: advances_def)
  from run obtain d' k' resp where g: "generate_timetable rnd k d = Inr (d', k', resp)"
    and tt: "db_timetable d' = pending st"
    by (simp add: generate_timetable_def Let_def)
  from g tt pst B R show ?thesis by (auto simp: new_entry_def attempt_key_def DAYS_def)
qed

text \<open>
  C25. Progress: when every subject's faculty exists, there is a batch and a subject, and
  the first room's id is truthy, the request returns with at least one session scheduled,
  and the first committed row is the first attempt of the run, in the first room.
\<close>

theorem generate_makes_progress:
  assumes facs: "\<forall>subj\<in>set (db_subjects d). faculty_id subj \<in> fac_id ` set (db_faculties d)"
    and b: "db_batches d \<noteq> []" and subjs: "db_subjects d \<noteq> []"
    and rooms: "db_rooms d \<noteq> []" and r0: "room_id (hd (db_rooms d)) \<noteq> []"
  shows "\<exists>d' k' resp. generate_timetable rnd k d = Inr (d', k', resp) \<and> 0 < gr_scheduled resp \<and>
     attempt_key (hd (db_timetable d')) = (batch_id (hd (db_batches d)), hd DAYS, 1) \<and>
     tt_room (hd (db_timetable d')) = room_id (hd (db_rooms d))"
proof -
  from generate_first_row [OF assms, of rnd k] obtain d' k' resp where
    g: "generate_timetable rnd k d = Inr (d', k', resp)" and ne: "db_timetable d' \<noteq> []"
    and first: "attempt_key (hd (db_timetable d')) = (batch_id (hd (db_batches d)), hd DAYS, 1)"
      "tt_room (hd (db_timetable d')) = room_id (hd (db_rooms d))"
    by blast
  have "0 < gr_scheduled resp"
    using generate_timetable_inv(7) [OF g] ne by (metis length_greater_0_conv of_nat_0_less_iff)
  with g first show ?thesis by blast
qed

text \<open>
  C26. Hoisting the room lookup out of the subject loop preserves the behaviour: the loop
  of the source and its reference \<open>try_subjects_ref\<close> give the same result, errors
  included, on every input.
\<close>

theorem try_subjects_hoisted:
  "try_subjects E b d s subs st = try_subjects_ref E b d s subs st"
  by (induction subs) (auto simp: try_subjects_ref_def split: sum.splits option.splits)


end
