(* ===== verification/Projection.thy ===== *)
theory Projection
  imports Allocator
begin

text \<open>
  The read side, \<open>get_timetable_batch\<close> (src/app.py lines 237-262): the SQL query joins
  each timetable row of the batch with its room, subject and faculty (inner joins, so a
  row whose room, subject or faculty no longer exists yields no result row), and the
  loop writes each result row into a grid of \<open>DAYS \<times> SLOTS_PER_DAY\<close> cells with
  \<open>timetable[row["day"]][row["slot"]-1] = {...}\<close>: an unknown day raises
  \<open>KeyError\<close>, a slot index is a Python list index (negative counts from the end, out of
  range raises \<open>IndexError\<close>). The query has no \<open>ORDER BY\<close>; the model returns the
  result rows in the order of SQLite's nested-loop join, timetable rows in rowid order.
\<close>

record proj_row =
  pr_day :: string
  pr_slot :: int
  pr_room :: string
  pr_subject :: string
  pr_faculty :: string

record cell =
  cell_subject :: string
  cell_faculty :: string
  cell_room :: string

type_synonym grid = "string \<rightharpoonup> cell option list"

text \<open>
  The query of lines 240-250 as SQLite runs it: a nested-loop join whose outer loop is
  the timetable; \<open>join_one\<close> is the inner part for one timetable row.
\<close>

definition join_one :: "db \<Rightarrow> string \<Rightarrow> tt_row \<Rightarrow> proj_row list" where
  "join_one d bid t =
     [\<lparr>pr_day = tt_day t, pr_slot = tt_slot t, pr_room = room_name r, pr_subject = sub_name s,
       pr_faculty = fac_name f\<rparr>.
        r \<leftarrow> db_rooms d, tt_room t = room_id r, s \<leftarrow> db_subjects d, tt_subject t = sub_id s,
        f \<leftarrow> db_faculties d, tt_faculty t = fac_id f, tt_batch t = bid]"

definition join_rows :: "db \<Rightarrow> string \<Rightarrow> proj_row list" where
  "join_rows d bid = concat (map (join_one d bid) (db_timetable d))"

definition empty_grid :: grid where
  "empty_grid = map_of (map (\<lambda>day. (day, replicate SLOTS_PER_DAY None)) DAYS)"

definition fill_row :: "proj_row \<Rightarrow> grid \<Rightarrow> grid py_result" where
  "fill_row row g =
     (case g (pr_day row) of
        None \<Rightarrow> Inl KeyError
      | Some xs \<Rightarrow>
          (case py_list_set xs (pr_slot row - 1)
                  (Some \<lparr>cell_subject = pr_subject row, cell_faculty = pr_faculty row,
                         cell_room = pr_room row\<rparr>) of
             Inl e \<Rightarrow> Inl e
           | Inr xs' \<Rightarrow> Inr (g(pr_day row \<mapsto> xs'))))"

definition get_timetable_batch :: "db \<Rightarrow> string \<Rightarrow> grid py_result" where
  "get_timetable_batch d bid = py_for fill_row (join_rows d bid) empty_grid"


text \<open>
  The specification of the grid: the cell of a day and a slot index holds the room,
  subject and faculty of the batch's timetable row at that day and slot, looked up by
  their keys, and is empty when there is no such row or one of the three is missing.
\<close>

definition resolve :: "db \<Rightarrow> tt_row \<Rightarrow> cell option" where
  "resolve d t =
     (case select_key room_id (tt_room t) (db_rooms d) of
        None \<Rightarrow> None
      | Some r \<Rightarrow>
          (case select_key sub_id (tt_subject t) (db_subjects d) of
             None \<Rightarrow> None
           | Some s \<Rightarrow>
               (case select_key fac_id (tt_faculty t) (db_faculties d) of
                  None \<Rightarrow> None
                | Some f \<Rightarrow> Some \<lparr>cell_subject = sub_name s, cell_faculty = fac_name f,
                                   cell_room = room_name r\<rparr>)))"

definition at_cell :: "string \<Rightarrow> string \<Rightarrow> nat \<Rightarrow> tt_row \<Rightarrow> bool" where
  "at_cell bid day i t \<longleftrightarrow> tt_batch t = bid \<and> tt_day t = day \<and> tt_slot t = int i + 1"

definition proj_cell :: "db \<Rightarrow> string \<Rightarrow> tt_row list \<Rightarrow> string \<Rightarrow> nat \<Rightarrow> cell option \<Rightarrow> cell option" where
  "proj_cell d bid ts day i c0 =
     (case find (at_cell bid day i) ts of
        None \<Rightarrow> c0
      | Some t \<Rightarrow> (case resolve d t of None \<Rightarrow> c0 | Some c \<Rightarrow> Some c))"

definition proj_spec :: "db \<Rightarrow> string \<Rightarrow> grid" where
  "proj_spec d bid =
     map_of (map (\<lambda>day. (day, map (\<lambda>i. proj_cell d bid (db_timetable d) day i None) [0..<SLOTS_PER_DAY]))
       DAYS)"

text \<open>The timetable rows of a batch that the grid can show: known days, slots 1 to 6, one row per cell.\<close>

definition rows_fit :: "string \<Rightarrow> tt_row list \<Rightarrow> bool" where
  "rows_fit bid ts \<longleftrightarrow>
     (\<forall>t\<in>set ts. tt_batch t = bid \<longrightarrow> tt_day t \<in> set DAYS \<and> 1 \<le> tt_slot t \<and> tt_slot t \<le> int SLOTS_PER_DAY) \<and>
     distinct (map attempt_key (filter (\<lambda>t. tt_batch t = bid) ts))"

text \<open>The shape of the grid the endpoint builds: the days of \<open>DAYS\<close>, each with \<open>SLOTS_PER_DAY\<close> cells.\<close>

definition grid_shape :: "grid \<Rightarrow> bool" where
  "grid_shape g \<longleftrightarrow> (\<forall>day. day \<notin> set DAYS \<longrightarrow> g day = None) \<and>
     (\<forall>day\<in>set DAYS. \<exists>xs. g day = Some xs \<and> length xs = SLOTS_PER_DAY)"

section \<open>The join\<close>

lemma join_one_resolve:
  assumes "keys_unique d"
  shows "join_one d bid t =
     (if tt_batch t = bid then
        (case resolve d t of
           None \<Rightarrow> []
         | Some c \<Rightarrow> [\<lparr>pr_day = tt_day t, pr_slot = tt_slot t, pr_room = cell_room c,
                      pr_subject = cell_subject c, pr_faculty = cell_faculty c\<rparr>])
      else [])"
  using assms
  by (simp add: join_one_def resolve_def keys_unique_def concat_map_key_unique
      split: option.split)


section \<open>Filling the grid\<close>

text \<open>A grid whose every day of \<open>DAYS\<close> holds a list of \<open>SLOTS_PER_DAY\<close> cells.\<close>

lemma fill_row_write:
  assumes g: "g (pr_day row) = Some xs" "length xs = SLOTS_PER_DAY"
    and slot: "1 \<le> pr_slot row" "pr_slot row \<le> int SLOTS_PER_DAY"
  shows "fill_row row g = Inr (g(pr_day row \<mapsto> xs[nat (pr_slot row - 1) :=
           Some \<lparr>cell_subject = pr_subject row, cell_faculty = pr_faculty row, cell_room = pr_room row\<rparr>]))"
  using g slot by (simp add: fill_row_def py_list_set_in_range)

lemma cell_eta [simp]:
  "\<lparr>cell_subject = cell_subject c, cell_faculty = cell_faculty c, cell_room = cell_room c\<rparr> = c"
  by (cases c) simp

text \<open>
  The loop over the joined rows of a list of timetable rows that fit the grid sets each
  cell as \<open>proj_cell\<close> says, starting from any grid of the right shape.
\<close>

lemma fill_rows_cells:
  assumes ku: "keys_unique d" and fit: "rows_fit bid ts"
    and g: "\<forall>day\<in>set DAYS. \<exists>xs. g day = Some xs \<and> length xs = SLOTS_PER_DAY"
  shows "py_for fill_row (concat (map (join_one d bid) ts)) g =
     Inr (\<lambda>day. map_option (\<lambda>xs. map (\<lambda>i. proj_cell d bid ts day i (xs ! i)) [0..<length xs]) (g day))"
  using fit g
proof (induction ts arbitrary: g)
  case Nil
  have "map_option (\<lambda>xs. map (\<lambda>i. xs ! i) [0..<length xs]) (g day) = g day" for day
    by (cases "g day") (simp_all add: map_nth)
  then show ?case by (simp add: proj_cell_def)
next
  case (Cons t ts)
  have fit': "rows_fit bid ts" using Cons.prems(1) by (simp add: rows_fit_def split: if_splits)
  have other: "find (at_cell bid day i) ts = None" if at: "at_cell bid day i t" for day i
  proof -
    have notin: "attempt_key t \<notin> attempt_key ` {x \<in> set ts. tt_batch x = bid}"
      using Cons.prems(1) at by (simp add: rows_fit_def at_cell_def)
    have "\<not> at_cell bid day i x" if "x \<in> set ts" for x
    proof
      assume "at_cell bid day i x"
      with at have eq: "attempt_key x = attempt_key t" and "tt_batch x = bid"
        by (simp_all add: at_cell_def attempt_key_def)
      from that \<open>tt_batch x = bid\<close> have "attempt_key x \<in> attempt_key ` {x \<in> set ts. tt_batch x = bid}"
        by (intro imageI) simp
      with eq notin show False by simp
    qed
    then show ?thesis by (simp add: find_None_iff)
  qed
  show ?case
  proof (cases "tt_batch t = bid \<and> resolve d t \<noteq> None")
    case False
    then have j: "join_one d bid t = []" by (auto simp: join_one_resolve [OF ku])
    have "proj_cell d bid (t # ts) day i c0 = proj_cell d bid ts day i c0" for day i c0
      using False other [of day i] by (auto simp: proj_cell_def at_cell_def split: option.split)
    with j Cons.IH [OF fit' Cons.prems(2)] show ?thesis by simp
  next
    case True
    then obtain c where b: "tt_batch t = bid" and c: "resolve d t = Some c" by auto
    from b Cons.prems(1) have day: "tt_day t \<in> set DAYS"
      and slot: "1 \<le> tt_slot t" "tt_slot t \<le> int SLOTS_PER_DAY"
      by (auto simp: rows_fit_def)
    from Cons.prems(2) day obtain xs where xs: "g (tt_day t) = Some xs" "length xs = SLOTS_PER_DAY"
      by blast
    let ?j = "nat (tt_slot t - 1)"
    let ?g1 = "g(tt_day t \<mapsto> xs[?j := Some c])"
    have j: "join_one d bid t = [\<lparr>pr_day = tt_day t, pr_slot = tt_slot t, pr_room = cell_room c,
                      pr_subject = cell_subject c, pr_faculty = cell_faculty c\<rparr>]"
      using b c by (simp add: join_one_resolve [OF ku])
    have f: "py_for fill_row (join_one d bid t) g = Inr ?g1"
      using fill_row_write [where g = g and xs = xs] xs slot by (simp add: j)
    have g1: "\<forall>day\<in>set DAYS. \<exists>ys. ?g1 day = Some ys \<and> length ys = SLOTS_PER_DAY"
      using Cons.prems(2) xs by auto
    have cell: "map (\<lambda>i. proj_cell d bid ts day i (ys ! i)) [0..<length ys] =
                map (\<lambda>i. proj_cell d bid (t # ts) day i (zs ! i)) [0..<length zs]"
      if "?g1 day = Some ys" "g day = Some zs" for day ys zs
    proof (cases "day = tt_day t")
      case True
      with that xs have ys: "ys = xs[?j := Some c]" and zs: "zs = xs" by auto
      have "proj_cell d bid ts day i (ys ! i) = proj_cell d bid (t # ts) day i (zs ! i)"
        if "i < length xs" for i
      proof (cases "i = ?j")
        case True
        then have "at_cell bid day i t" using b \<open>day = tt_day t\<close> slot by (simp add: at_cell_def)
        with other [OF this] c True that show ?thesis
          by (simp add: ys zs proj_cell_def)
      next
        case False
        then have "\<not> at_cell bid day i t" by (auto simp: at_cell_def)
        with False show ?thesis by (simp add: ys zs proj_cell_def)
      qed
      then show ?thesis by (simp add: ys zs)
    next
      case False
      with that have "ys = zs" by simp
      moreover have "\<not> at_cell bid day i t" for i using False by (simp add: at_cell_def)
      ultimately show ?thesis by (simp add: proj_cell_def)
    qed
    have "py_for fill_row (concat (map (join_one d bid) (t # ts))) g =
          py_for fill_row (concat (map (join_one d bid) ts)) ?g1"
      using f by (simp add: py_for_append)
    also have "\<dots> = Inr (\<lambda>day. map_option (\<lambda>xs. map (\<lambda>i. proj_cell d bid ts day i (xs ! i)) [0..<length xs]) (?g1 day))"
      by (rule Cons.IH [OF fit' g1])
    also have "\<dots> = Inr (\<lambda>day. map_option (\<lambda>xs. map (\<lambda>i. proj_cell d bid (t # ts) day i (xs ! i)) [0..<length xs]) (g day))"
    proof -
      have "map_option (\<lambda>xs. map (\<lambda>i. proj_cell d bid ts day i (xs ! i)) [0..<length xs]) (?g1 day) =
            map_option (\<lambda>xs. map (\<lambda>i. proj_cell d bid (t # ts) day i (xs ! i)) [0..<length xs]) (g day)" for day
        using cell [of day] xs by (cases "g day"; cases "?g1 day") (auto split: if_splits)
      then show ?thesis by simp
    qed
    finally show ?thesis .
  qed
qed


section \<open>The projection meets its specification\<close>

lemma empty_grid_shape: "\<forall>day\<in>set DAYS. \<exists>xs. empty_grid day = Some xs \<and> length xs = SLOTS_PER_DAY"
  by (simp add: empty_grid_def)

lemma get_timetable_batch_spec:
  assumes "keys_unique d" and "rows_fit bid (db_timetable d)"
  shows "get_timetable_batch d bid = Inr (proj_spec d bid)"
proof -
  have "get_timetable_batch d bid =
     Inr (\<lambda>day. map_option (\<lambda>xs. map (\<lambda>i. proj_cell d bid (db_timetable d) day i (xs ! i)) [0..<length xs])
                 (empty_grid day))"
    unfolding get_timetable_batch_def join_rows_def by (rule fill_rows_cells [OF assms empty_grid_shape])
  also have "\<dots> = Inr (proj_spec d bid)"
    by (auto simp: empty_grid_def proj_spec_def)
  finally show ?thesis .
qed



lemma proj_cell_None:
  "proj_cell d bid ts day i None = (case find (at_cell bid day i) ts of None \<Rightarrow> None | Some t \<Rightarrow> resolve d t)"
  by (simp add: proj_cell_def split: option.split)

text \<open>
  C20. Projection correctness: when entity keys are unique and the batch's timetable rows
  sit on known days, in slots 1 to 6, one row per cell, the loop of
  \<open>get_timetable_batch\<close> is equivalent to the declarative grid: it returns (raises
  nothing) a grid with exactly the days of \<open>DAYS\<close>, six cells per day, and in the cell
  of slot index \<open>i\<close> of a day the subject name, faculty name and room name of the
  batch's row at that day and slot \<open>i + 1\<close>, or nothing when there is no such row or
  its room, subject or faculty row is missing. The room field of a cell is the room's
  name (\<open>r.room_name AS room\<close>, line 242), not the room id the specification's
  example (section 8) shows.
\<close>

theorem projection_cells:
  assumes "keys_unique d" and "rows_fit bid (db_timetable d)"
  shows "\<exists>g. get_timetable_batch d bid = Inr g \<and> (\<forall>day. day \<notin> set DAYS \<longrightarrow> g day = None) \<and>
     (\<forall>day\<in>set DAYS. \<exists>xs. g day = Some xs \<and> length xs = SLOTS_PER_DAY \<and>
        (\<forall>i<SLOTS_PER_DAY. xs ! i =
           (case find (at_cell bid day i) (db_timetable d) of None \<Rightarrow> None | Some t \<Rightarrow> resolve d t)))"
  using get_timetable_batch_spec [OF assms] by (simp add: proj_spec_def proj_cell_None)

section \<open>The shape of the grid and the error paths\<close>

lemma grid_shape_empty: "grid_shape empty_grid"
  by (simp add: grid_shape_def empty_grid_def)

lemma fill_row_shape:
  assumes f: "fill_row row g = Inr g'" and sh: "grid_shape g"
  shows "grid_shape g'"
proof -
  from f obtain xs c ys where gx: "g (pr_day row) = Some xs"
    and ys: "py_list_set xs (pr_slot row - 1) c = Inr ys" and g': "g' = g(pr_day row \<mapsto> ys)"
    by (auto simp: fill_row_def split: option.splits sum.splits)
  have day: "pr_day row \<in> set DAYS" using sh gx by (auto simp: grid_shape_def)
  from sh gx day g' py_list_set_length [OF ys] show ?thesis by (auto simp: grid_shape_def)
qed

text \<open>
  C23. Whatever the database holds, a grid the endpoint returns has exactly the days of
  \<open>DAYS\<close> as keys and \<open>SLOTS_PER_DAY\<close> cells per day: assignments into it never add a
  key or change a list's length.
\<close>

theorem projection_grid_shape:
  "get_timetable_batch d bid = Inr g \<Longrightarrow>
   (\<forall>day. day \<notin> set DAYS \<longrightarrow> g day = None) \<and>
   (\<forall>day\<in>set DAYS. \<exists>xs. g day = Some xs \<and> length xs = SLOTS_PER_DAY)"
  unfolding get_timetable_batch_def
  using py_for_inv [where I = grid_shape, OF fill_row_shape] grid_shape_empty
  by (simp add: grid_shape_def)

text \<open>
  C24. The error paths of the grid fill: when the first joined row of the batch names a
  day outside \<open>DAYS\<close>, the request raises \<open>KeyError\<close>; when its day is known but its
  slot is above \<open>SLOTS_PER_DAY\<close> or below \<open>1 - SLOTS_PER_DAY\<close>, it raises
  \<open>IndexError\<close>; a slot from \<open>1 - SLOTS_PER_DAY\<close> to \<open>0\<close> does not raise but, as a
  negative Python index, writes the cell \<open>SLOTS_PER_DAY + slot - 1\<close>, counted from the end.
\<close>

theorem projection_row_errors:
  assumes j: "join_rows d bid = row # rest"
  shows "(pr_day row \<notin> set DAYS \<longrightarrow> get_timetable_batch d bid = Inl KeyError) \<and>
    (pr_day row \<in> set DAYS \<and> (int SLOTS_PER_DAY < pr_slot row \<or> pr_slot row < 1 - int SLOTS_PER_DAY) \<longrightarrow>
       get_timetable_batch d bid = Inl IndexError) \<and>
    (pr_day row \<in> set DAYS \<and> 1 - int SLOTS_PER_DAY \<le> pr_slot row \<and> pr_slot row \<le> 0 \<longrightarrow>
       (\<exists>g. fill_row row empty_grid = Inr g \<and>
          g (pr_day row) = Some ((replicate SLOTS_PER_DAY None)[nat (int SLOTS_PER_DAY + (pr_slot row - 1)) :=
            Some \<lparr>cell_subject = pr_subject row, cell_faculty = pr_faculty row, cell_room = pr_room row\<rparr>])))"
  using j by (simp add: get_timetable_batch_def fill_row_def empty_grid_def py_list_set_def Let_def)

end
