(* ===== verification/Server.thy ===== *)
theory Server
  imports Generate Projection
begin

text \<open>
  The FastAPI application as a state machine. Its state is the database file, the
  position of the module-level \<open>random\<close> generator, and whether
  \<open>static/index.html\<close> exists. A request is one of the routes; \<open>respond\<close> gives the
  JSON answer and the next state. An exception inside a handler becomes HTTP 500
  (\<open>ServerError\<close>) and, as the connection never commits, leaves the database as it
  was. Python's generator is not rolled back: a failed generation has consumed draws
  that \<open>respond\<close> does not count; the state it leaves is covered by the \<open>reseed\<close>
  rule of \<open>reachable\<close>, which lets the generator's position (a restart reseeds it) and
  the static folder change between requests. A restart runs \<open>init_db\<close> again, whose
  \<open>CREATE TABLE IF NOT EXISTS\<close> keeps every table and the \<open>AUTOINCREMENT\<close> counter.
\<close>

record server =
  srv_db :: db
  srv_rng :: nat
  srv_static_index :: bool

datatype request = Crud crud_op | Generate | GetTimetable string | Index

datatype response =
    CrudAnswer crud_resp | Generated gen_response | Grid grid | IndexFile | Message string
  | ServerError py_error

text \<open>
  One request: the CRUD routes (lines 81-177), \<open>POST /api/generate\<close> (187-231),
  \<open>GET /api/timetable/batch/{batch_id}\<close> (237-262) and \<open>GET /\<close> (180-185).
\<close>

fun respond :: "(nat \<Rightarrow> nat) \<Rightarrow> request \<Rightarrow> server \<Rightarrow> response \<times> server" where
  "respond rnd (Crud op) s =
     (case crud_step op (srv_db s) of
        Inl e \<Rightarrow> (ServerError e, s)
      | Inr (d', r) \<Rightarrow> (CrudAnswer r, s\<lparr>srv_db := d'\<rparr>))"
| "respond rnd Generate s =
     (case generate_timetable rnd (srv_rng s) (srv_db s) of
        Inl e \<Rightarrow> (ServerError e, s)
      | Inr (d', k', resp) \<Rightarrow> (Generated resp, s\<lparr>srv_db := d', srv_rng := k'\<rparr>))"
| "respond rnd (GetTimetable bid) s =
     (case get_timetable_batch (srv_db s) bid of
        Inl e \<Rightarrow> (ServerError e, s)
      | Inr g \<Rightarrow> (Grid g, s))"
| "respond rnd Index s =
     (if srv_static_index s then IndexFile else Message ''Place index.html in the static folder.'', s)"

definition handle :: "(nat \<Rightarrow> nat) \<Rightarrow> request \<Rightarrow> server \<Rightarrow> server" where
  "handle rnd req s = snd (respond rnd req s)"

inductive reachable :: "(nat \<Rightarrow> nat) \<Rightarrow> server \<Rightarrow> bool" for rnd where
  start: "reachable rnd \<lparr>srv_db = init_db, srv_rng = k, srv_static_index = b\<rparr>"
| step: "reachable rnd s \<Longrightarrow> reachable rnd (handle rnd req s)"
| reseed: "reachable rnd s \<Longrightarrow> reachable rnd (s\<lparr>srv_rng := k, srv_static_index := b\<rparr>)"

text \<open>The invariant of the reachable states.\<close>

definition server_inv :: "server \<Rightarrow> bool" where
  "server_inv s \<longleftrightarrow> keys_unique (srv_db s) \<and>
     distinct (map fac_key (db_timetable (srv_db s))) \<and>
     distinct (map room_key (db_timetable (srv_db s))) \<and>
     distinct (map entry_id (db_timetable (srv_db s))) \<and>
     (\<forall>e\<in>set (db_timetable (srv_db s)). entry_id e \<le> tt_seq (srv_db s)) \<and>
     (\<forall>e\<in>set (db_timetable (srv_db s)).
        tt_day e \<in> set DAYS \<and> 1 \<le> tt_slot e \<and> tt_slot e \<le> int SLOTS_PER_DAY) \<and>
     distinct (map attempt_key (db_timetable (srv_db s)))"

section \<open>The state change of a request\<close>

lemma handle_simps [simp]:
  "handle rnd (Crud op) s =
     (case crud_step op (srv_db s) of Inl e \<Rightarrow> s | Inr (d', r) \<Rightarrow> s\<lparr>srv_db := d'\<rparr>)"
  "handle rnd Generate s =
     (case generate_timetable rnd (srv_rng s) (srv_db s) of
        Inl e \<Rightarrow> s
      | Inr (d', k', resp) \<Rightarrow> s\<lparr>srv_db := d', srv_rng := k'\<rparr>)"
  "handle rnd (GetTimetable bid) s = s"
  "handle rnd Index s = s"
  by (simp_all add: handle_def split: sum.split prod.split)

section \<open>The invariant of the server\<close>

lemma server_inv_init: "server_inv \<lparr>srv_db = init_db, srv_rng = k, srv_static_index = b\<rparr>"
  by (simp add: server_inv_def init_db_def keys_unique_def)

lemma handle_keeps_inv:
  assumes inv: "server_inv s"
  shows "server_inv (handle rnd req s)"
proof (cases req)
  case (Crud op)
  show ?thesis
  proof (cases "crud_step op (srv_db s)")
    case (Inl e)
    with Crud inv show ?thesis by simp
  next
    case (Inr r)
    then obtain d' resp where c: "crud_step op (srv_db s) = Inr (d', resp)" by (cases r) auto
    from crud_step_timetable [OF c] crud_step_keys_unique [OF c] inv Crud c show ?thesis
      by (simp add: server_inv_def)
  qed
next
  case (GetTimetable bid)
  with inv show ?thesis by simp
next
  case Index
  with inv show ?thesis by simp
next
  case Generate
  show ?thesis
  proof (cases "generate_timetable rnd (srv_rng s) (srv_db s)")
    case (Inl e)
    with Generate inv show ?thesis by simp
  next
    case (Inr r)
    then obtain d' k' resp where g: "generate_timetable rnd (srv_rng s) (srv_db s) = Inr (d', k', resp)"
      by (cases r) auto
    note facts = generate_timetable_inv [OF g]
    have "keys_unique d'"
      using inv facts(10) by (metis (no_types) keys_unique_def server_inv_def db.select_convs db.update_convs(5,6)
        db.surjective)
    moreover have "distinct (map entry_id (db_timetable d')) \<and> (\<forall>e\<in>set (db_timetable d'). entry_id e \<le> tt_seq d')"
      using map_eq_upt_bounds [OF facts(4)] facts(4) distinct_upt
      by (metis distinct_map less_Suc_eq_le)
    moreover have "\<forall>e\<in>set (db_timetable d').
        tt_day e \<in> set DAYS \<and> 1 \<le> tt_slot e \<and> tt_slot e \<le> int SLOTS_PER_DAY"
      using generate_entry_cell [OF g] by blast
    moreover have "distinct (map attempt_key (db_timetable d'))"
      using generate_attempt_keys_distinct [OF g] inv by (simp add: server_inv_def keys_unique_def)
    ultimately show ?thesis using Generate g facts(1,2) by (simp add: server_inv_def)
  qed
qed

lemma reachable_server_inv: "reachable rnd s \<Longrightarrow> server_inv s"
  by (induction rule: reachable.induct) (simp_all add: server_inv_init handle_keeps_inv, simp add: server_inv_def)


lemma server_inv_projection:
  assumes "server_inv s"
  shows "get_timetable_batch (srv_db s) bid = Inr (proj_spec (srv_db s) bid)"
proof (rule get_timetable_batch_spec)
  show "keys_unique (srv_db s)" using assms by (simp add: server_inv_def)
  show "rows_fit bid (db_timetable (srv_db s))"
    using assms by (simp add: server_inv_def rows_fit_def distinct_map_filter)
qed

lemma reachable_fold: "reachable rnd s \<Longrightarrow> reachable rnd (fold (handle rnd) reqs s)"
  by (induction reqs arbitrary: s) (simp_all add: reachable.step)

section \<open>Properties of the routes\<close>

text \<open>
  C27. Where HTTP 500 comes from: on every reachable state, a request that answers with
  a server error leaves the state as it was (the connection never commits), and it is
  either a generation, which can only raise the \<open>KeyError\<close> of a faculty id that names
  no faculty, or a \<open>POST\<close> of a room or a batch with an integer outside SQLite's 64-bit
  \<open>INTEGER\<close>, which raises \<open>OverflowError\<close>. The batch timetable, the index and every
  other CRUD route never answer with one.
\<close>

theorem respond_server_error:
  assumes r: "reachable rnd s" and resp: "respond rnd req s = (ServerError e, s')"
  shows "s' = s \<and>
    ((req = Generate \<and> e = KeyError) \<or>
     (e = OverflowError \<and>
        ((\<exists>rm. req = Crud (AddRoom rm) \<and> \<not> sqlite_int (ri_capacity rm)) \<or>
         (\<exists>b. req = Crud (AddBatch b) \<and>
            \<not> (sqlite_int (bi_year b) \<and> sqlite_int (bi_size b) \<and> sqlite_int (bi_shift b))))))"
proof (cases req)
  case (Crud op)
  with resp have "crud_step op (srv_db s) = Inl e" "s' = s"
    by (auto split: sum.splits prod.splits)
  with Crud show ?thesis by (auto simp: crud_step_Inl)
next
  case Generate
  with resp have "generate_timetable rnd (srv_rng s) (srv_db s) = Inl e" "s' = s"
    by (auto split: sum.splits prod.splits)
  with Generate show ?thesis by (simp add: generate_raises_KeyError)
next
  case (GetTimetable bid)
  from server_inv_projection [OF reachable_server_inv [OF r]]
  have "get_timetable_batch (srv_db s) bid = Inr (proj_spec (srv_db s) bid)" .
  with resp GetTimetable show ?thesis by simp
next
  case Index
  with resp show ?thesis by (simp split: if_splits)
qed

end
