(* ===== verification/Examples.thy ===== *)
theory Examples
  imports Generate Projection
begin

text \<open>
  Concrete databases and the theorems that apply the component properties to them: each
  \<open>_witness\<close> theorem instantiates a property of \<open>Generate\<close>, \<open>Occupancy\<close> or
  \<open>Projection\<close> at one of these databases and discharges its hypotheses by evaluating
  the definitions (\<open>simp\<close>, \<open>code_simp\<close>).
\<close>

section \<open>Example databases\<close>

definition ex_room :: room_row where
  "ex_room = \<lparr>room_id = ''R1'', room_name = ''Hall A'', capacity = 60, room_type = ''Lecture'',
              resources = ''''\<rparr>"

definition ex_db :: db where
  "ex_db =
     \<lparr>db_rooms = [ex_room],
      db_batches =
        [\<lparr>batch_id = ''B1'', department = ''CS'', year = 1, batch_section = ''A'', batch_size = 60, shift = 1\<rparr>,
         \<lparr>batch_id = ''B2'', department = ''CS'', year = 1, batch_section = ''B'', batch_size = 60, shift = 1\<rparr>],
      db_faculties = [\<lparr>fac_id = ''F1'', fac_name = ''Dr. X''\<rparr>],
      db_subjects =
        [\<lparr>sub_id = ''S1'', sub_name = ''Math'', faculty_id = ''F1''\<rparr>,
         \<lparr>sub_id = ''S2'', sub_name = ''Physics'', faculty_id = ''F1''\<rparr>],
      db_timetable = [], tt_seq = 0\<rparr>"

text \<open>A subject whose faculty was never added (or was deleted).\<close>

definition ex_dangling :: db where
  "ex_dangling = ex_db\<lparr>db_subjects := [\<lparr>sub_id = ''S3'', sub_name = ''Chemistry'', faculty_id = ''F9''\<rparr>]\<rparr>"

text \<open>A room added with the empty id before a regular room.\<close>

definition ex_blank_room :: db where
  "ex_blank_room = ex_db\<lparr>db_rooms := [ex_room\<lparr>room_id := ''''\<rparr>, ex_room\<lparr>room_id := ''R2''\<rparr>]\<rparr>"

text \<open>The timetable of the specification's projection example: B1 has Math with Dr. X in R1 on Monday, slot 3.\<close>

definition ex_proj_db :: db where
  "ex_proj_db = ex_db\<lparr>db_timetable :=
     [\<lparr>entry_id = 1, tt_batch = ''B1'', tt_day = ''Monday'', tt_slot = 3, tt_subject = ''S1'',
       tt_faculty = ''F1'', tt_room = ''R1''\<rparr>], tt_seq := 1\<rparr>"

text \<open>A timetable row on a day the grid does not have.\<close>

definition ex_bad_day_db :: db where
  "ex_bad_day_db = ex_proj_db\<lparr>db_timetable := map (\<lambda>t. t\<lparr>tt_day := ''Sunday''\<rparr>) (db_timetable ex_proj_db)\<rparr>"

text \<open>Two rooms, R1 before R2.\<close>

definition ex_two_rooms :: db where
  "ex_two_rooms = ex_db\<lparr>db_rooms := [ex_room, ex_room\<lparr>room_id := ''R2''\<rparr>]\<rparr>"

section \<open>Witnesses of the component properties\<close>

lemma ex_db_generates: "\<not> isl (generate_timetable (\<lambda>_. 0) 0 ex_db)"
  by code_simp

lemma ex_db_result:
  obtains d' k' resp where "generate_timetable (\<lambda>_. 0) 0 ex_db = Inr (d', k', resp)"
  using ex_db_generates by (cases "generate_timetable (\<lambda>_. 0) 0 ex_db") auto

theorem no_faculty_double_booking_witness:
  "\<exists>d' k' resp. generate_timetable (\<lambda>_. 0) 0 ex_db = Inr (d', k', resp) \<and>
     distinct (map fac_key (db_timetable d'))"
proof -
  obtain d' k' resp where g: "generate_timetable (\<lambda>_. 0) 0 ex_db = Inr (d', k', resp)"
    by (rule ex_db_result)
  with Generate.no_faculty_double_booking [OF g] show ?thesis by blast
qed

theorem no_room_double_booking_witness:
  "\<exists>d' k' resp. generate_timetable (\<lambda>_. 0) 0 ex_db = Inr (d', k', resp) \<and>
     distinct (map room_key (db_timetable d'))"
proof -
  obtain d' k' resp where g: "generate_timetable (\<lambda>_. 0) 0 ex_db = Inr (d', k', resp)"
    by (rule ex_db_result)
  with Generate.no_room_double_booking [OF g] show ?thesis by blast
qed

theorem generate_counts_witness:
  "\<exists>d' k' resp. generate_timetable (\<lambda>_. 0) 0 ex_db = Inr (d', k', resp) \<and>
     gr_scheduled resp + gr_unscheduled resp = 60 \<and> gr_status resp = ''ok''"
proof -
  obtain d' k' resp where g: "generate_timetable (\<lambda>_. 0) 0 ex_db = Inr (d', k', resp)"
    by (rule ex_db_result)
  with Generate.generate_counts [OF g] show ?thesis
    by (auto simp: ex_db_def DAYS_def SLOTS_PER_DAY_def)
qed

theorem generate_attempt_order_witness:
  "\<exists>d' k' resp. generate_timetable (\<lambda>_. 0) 0 ex_db = Inr (d', k', resp) \<and>
     distinct (map attempt_key (db_timetable d'))"
proof -
  obtain d' k' resp where g: "generate_timetable (\<lambda>_. 0) 0 ex_db = Inr (d', k', resp)"
    by (rule ex_db_result)
  with Generate.generate_attempt_order [OF g] show ?thesis
    by (auto simp: ex_db_def)
qed

theorem generate_returns_when_faculties_resolve_witness:
  "\<exists>d' k' resp. generate_timetable (\<lambda>_. 0) 0 ex_db = Inr (d', k', resp)"
  using Generate.generate_returns_when_faculties_resolve [of ex_db "\<lambda>_. 0" 0]
  by (simp add: ex_db_def)

theorem generate_dangling_faculty_raises_witness:
  "generate_timetable (\<lambda>_. 0) 0 ex_dangling = Inl KeyError"
  by (rule Generate.generate_dangling_faculty_raises)
     (simp_all add: ex_dangling_def ex_db_def ex_room_def)

theorem generate_without_rooms_witness:
  "\<exists>d' k' resp. generate_timetable (\<lambda>_. 0) 0 (ex_db\<lparr>db_rooms := []\<rparr>) = Inr (d', k', resp) \<and>
     db_timetable d' = [] \<and> gr_scheduled resp = 0 \<and> gr_unscheduled resp = 60"
  using Generate.generate_without_rooms [of "ex_db\<lparr>db_rooms := []\<rparr>" "\<lambda>_. 0" 0]
  by (simp add: ex_db_def DAYS_def SLOTS_PER_DAY_def)

theorem generate_capacity_bound_witness:
  "\<exists>d' k' resp. generate_timetable (\<lambda>_. 0) 0 ex_db = Inr (d', k', resp) \<and>
     length (db_timetable d') \<le> 30"
proof -
  obtain d' k' resp where g: "generate_timetable (\<lambda>_. 0) 0 ex_db = Inr (d', k', resp)"
    by (rule ex_db_result)
  with Generate.generate_capacity_bound [OF g] show ?thesis
    by (auto simp: ex_db_def DAYS_def SLOTS_PER_DAY_def)
qed

theorem single_room_saturation_witness:
  "\<exists>d' k' resp. generate_timetable (\<lambda>_. 0) 0 ex_db = Inr (d', k', resp) \<and>
     30 \<le> gr_unscheduled resp"
proof -
  obtain d' k' resp where g: "generate_timetable (\<lambda>_. 0) 0 ex_db = Inr (d', k', resp)"
    by (rule ex_db_result)
  have "length (db_rooms ex_db) = 1" "length (db_batches ex_db) = 2"
    by (simp_all add: ex_db_def)
  with Generate.single_room_saturation [OF g] g show ?thesis by blast
qed

theorem generate_empty_room_id_blocks_witness:
  "\<exists>d' k' resp. generate_timetable (\<lambda>_. 0) 0 ex_blank_room = Inr (d', k', resp) \<and>
     db_timetable d' = [] \<and> gr_scheduled resp = 0 \<and> gr_unscheduled resp = 60"
  using Generate.generate_empty_room_id_blocks [of ex_blank_room "\<lambda>_. 0" 0]
  by (simp add: ex_blank_room_def ex_db_def ex_room_def DAYS_def SLOTS_PER_DAY_def)

theorem generate_full_replace_witness:
  "\<exists>d' k' resp. generate_timetable (\<lambda>_. 0) 0 ex_db = Inr (d', k', resp) \<and>
     map entry_id (db_timetable d') = [1..<Suc (tt_seq d')]"
proof -
  obtain d' k' resp where g: "generate_timetable (\<lambda>_. 0) 0 ex_db = Inr (d', k', resp)"
    by (rule ex_db_result)
  with Generate.generate_full_replace [OF g] show ?thesis
    by (auto simp: ex_db_def)
qed

theorem generate_entries_well_formed_witness:
  "\<exists>d' k' resp. generate_timetable (\<lambda>_. 0) 0 ex_db = Inr (d', k', resp) \<and>
     (\<forall>e\<in>set (db_timetable d'). tt_room e = ''R1'' \<and> tt_faculty e = ''F1'')"
proof -
  obtain d' k' resp where g: "generate_timetable (\<lambda>_. 0) 0 ex_db = Inr (d', k', resp)"
    by (rule ex_db_result)
  with Generate.generate_entries_well_formed [OF g] show ?thesis
    by (auto simp: ex_db_def ex_room_def)
qed

lemma ex_try_subjects_places:
  "(case try_subjects (gen_env_of (\<lambda>_. 0) ex_db) (hd (db_batches ex_db)) ''Monday'' 0
      (db_subjects ex_db) (gen_init ex_db 0) of Inl e \<Rightarrow> False | Inr (st', placed) \<Rightarrow> placed)"
  by code_simp

theorem try_subjects_outcome_witness:
  "\<exists>st' subj post r.
     try_subjects (gen_env_of (\<lambda>_. 0) ex_db) (hd (db_batches ex_db)) ''Monday'' 0
       (db_subjects ex_db) (gen_init ex_db 0) = Inr (st', True) \<and>
     db_subjects ex_db = subj # post \<and> r \<noteq> [] \<and>
     place (hd (db_batches ex_db)) ''Monday'' 0 subj r (gen_init ex_db 0) = Inr st'"
proof -
  obtain st' where t: "try_subjects (gen_env_of (\<lambda>_. 0) ex_db) (hd (db_batches ex_db)) ''Monday'' 0
       (db_subjects ex_db) (gen_init ex_db 0) = Inr (st', True)"
    using ex_try_subjects_places by (auto split: sum.splits)
  from Generate.try_subjects_outcome [OF t] obtain pre subj post r where
    split: "db_subjects ex_db = pre @ subj # post" and r: "r \<noteq> []"
    and busy: "\<forall>p\<in>set pre. occ_get (fac_slot (gen_init ex_db 0)) (faculty_id p) ''Monday'' 0 = Inr True"
    and pl: "place (hd (db_batches ex_db)) ''Monday'' 0 subj r (gen_init ex_db 0) = Inr st'"
    by auto
  have "pre = []"
  proof (rule ccontr)
    assume "pre \<noteq> []"
    then obtain p where "p \<in> set pre" by (cases pre) auto
    with busy split show False
      by (auto simp: gen_init_def ex_db_def occ_get_init occ_abs_def DAYS_def SLOTS_PER_DAY_def
          Cons_eq_append_conv)
  qed
  with split r pl t show ?thesis by auto
qed


lemma ex_proj_returns: "\<not> isl (get_timetable_batch ex_proj_db ''B1'')"
  by code_simp

theorem projection_cells_witness:
  "\<exists>g xs. get_timetable_batch ex_proj_db ''B1'' = Inr g \<and> g ''Monday'' = Some xs \<and>
     xs ! 2 = resolve ex_proj_db (hd (db_timetable ex_proj_db))"
proof -
  have ku: "keys_unique ex_proj_db"
    by (simp add: keys_unique_def ex_proj_db_def ex_db_def ex_room_def)
  have fit: "rows_fit ''B1'' (db_timetable ex_proj_db)"
    by (simp add: rows_fit_def ex_proj_db_def DAYS_def SLOTS_PER_DAY_def)
  from Projection.projection_cells [OF ku fit] obtain g where g: "get_timetable_batch ex_proj_db ''B1'' = Inr g"
    and cells: "\<forall>day\<in>set DAYS. \<exists>xs. g day = Some xs \<and> length xs = SLOTS_PER_DAY \<and>
        (\<forall>i<SLOTS_PER_DAY. xs ! i =
           (case find (at_cell ''B1'' day i) (db_timetable ex_proj_db) of None \<Rightarrow> None | Some t \<Rightarrow> resolve ex_proj_db t))"
    by blast
  have "''Monday'' \<in> set DAYS" by (simp add: DAYS_def)
  with cells obtain xs where xs: "g ''Monday'' = Some xs"
    and c: "\<forall>i<SLOTS_PER_DAY. xs ! i =
           (case find (at_cell ''B1'' ''Monday'' i) (db_timetable ex_proj_db) of None \<Rightarrow> None | Some t \<Rightarrow> resolve ex_proj_db t)"
    by blast
  have "find (at_cell ''B1'' ''Monday'' 2) (db_timetable ex_proj_db) = Some (hd (db_timetable ex_proj_db))"
    by (simp add: ex_proj_db_def at_cell_def)
  with c have "xs ! 2 = resolve ex_proj_db (hd (db_timetable ex_proj_db))"
    by (simp add: SLOTS_PER_DAY_def)
  with g xs show ?thesis by blast
qed

theorem projection_grid_shape_witness:
  "\<exists>g xs. get_timetable_batch ex_proj_db ''B1'' = Inr g \<and> g ''Friday'' = Some xs \<and>
     length xs = SLOTS_PER_DAY \<and> g ''Sunday'' = None"
proof -
  obtain g where g: "get_timetable_batch ex_proj_db ''B1'' = Inr g"
    using ex_proj_returns by (cases "get_timetable_batch ex_proj_db ''B1''") auto
  note shape = Projection.projection_grid_shape [OF g]
  have "''Friday'' \<in> set DAYS" "''Sunday'' \<notin> set DAYS" by (simp_all add: DAYS_def)
  with shape g show ?thesis by blast
qed

theorem projection_row_errors_witness:
  "get_timetable_batch ex_bad_day_db ''B1'' = Inl KeyError"
proof -
  have j: "join_rows ex_bad_day_db ''B1'' =
     [\<lparr>pr_day = ''Sunday'', pr_slot = 3, pr_room = ''Hall A'', pr_subject = ''Math'', pr_faculty = ''Dr. X''\<rparr>]"
    by (simp add: join_rows_def join_one_def ex_bad_day_db_def ex_proj_db_def ex_db_def ex_room_def)
  from Projection.projection_row_errors [OF j] show ?thesis by (simp add: DAYS_def)
qed


theorem generate_makes_progress_witness:
  "\<exists>d' k' resp. generate_timetable (\<lambda>_. 0) 0 ex_db = Inr (d', k', resp) \<and> 0 < gr_scheduled resp \<and>
     attempt_key (hd (db_timetable d')) = (''B1'', ''Monday'', 1) \<and> tt_room (hd (db_timetable d')) = ''R1''"
  using Generate.generate_makes_progress [of ex_db "\<lambda>_. 0" 0]
  by (simp add: ex_db_def ex_room_def DAYS_def)

end
