(* ===== verification/Spec2Isabelle.thy ===== *)
theory Spec2Isabelle
  imports Prelude Shuffle Store Occupancy Allocator Generate Projection Server Examples
begin

text \<open>
  \<^bold>\<open>A verification library for the Timetable Scheduler\<close> (src/app.py, one FastAPI
  module over an SQLite database).

  \<^bold>\<open>The program.\<close> The server keeps five tables (\<open>init_db\<close>, lines 37-48): rooms,
  batches, faculties, subjects and the generated timetable. CRUD routes (lines 80-177)
  insert-or-replace and delete entity rows. \<open>POST /api/generate\<close>
  (\<open>generate_timetable\<close>, lines 187-231) deletes the timetable and, inside one
  transaction, walks every batch, every day of \<open>DAYS\<close> and every slot of
  \<open>SLOTS_PER_DAY\<close>; for each attempt it shuffles the subjects with \<open>random.shuffle\<close>
  and places the first subject whose faculty is free in the first free room, marking
  the two occupancy tables \<open>global_fac_slot\<close> and \<open>global_room_slot\<close>, or counts the
  attempt as unscheduled. \<open>GET /api/timetable/batch/{id}\<close> (lines 237-262) projects
  the timetable of one batch to a day \<open>\<times>\<close> slot grid.

  \<^bold>\<open>The theories.\<close>
  \<^item> \<open>Prelude\<close>: Python exceptions as values (\<open>py_error\<close>, results \<open>py_error + 'a\<close>),
    truthiness of optional strings, Python list assignment, the \<open>for\<close> loop whose body
    may raise (\<open>py_for\<close>) with its invariant, trace and totality rules, and list swaps.
  \<^item> \<open>Shuffle\<close>: CPython's \<open>random.shuffle\<close> (Fisher-Yates from the back) driven by an
    oracle of raw draws and a position in it, the module-level generator's state. It
    permutes and consumes \<open>len - 1\<close> draws (C14), and every permutation is the result
    of some draws (C15). This is library code, modelled from CPython's source.
  \<^item> \<open>Store\<close>: the rows as records, the database as a record of row lists in rowid
    order, \<open>INSERT OR REPLACE\<close> and \<open>DELETE\<close> on a primary key; the Pydantic request
    models with their defaults (\<open>RoomIn\<close>, \<open>BatchIn\<close>) and the column mapping of each
    handler's \<open>VALUES\<close> tuple; the eight mutating handlers, the four list routes and
    their router \<open>crud_step\<close> with its JSON answers; the \<open>AUTOINCREMENT\<close> id counter
    of the timetable is \<open>tt_seq\<close>. \<open>sqlite3\<close> binds integers as 64-bit
    \<open>INTEGER\<close>s: a room or batch with an integer outside that range raises
    \<open>OverflowError\<close> and is not stored (\<open>sqlite_int\<close>). Loads after stores, with that
    error path (C18).
  \<^item> \<open>Occupancy\<close>: the two occupancy tables as dicts of dicts of lists, with reads and
    writes that raise \<open>KeyError\<close>/\<open>IndexError\<close> as Python does, the first-free-room
    scan, and their refinement of sets of used (key, day, slot) cells (C16).
  \<^item> \<open>Allocator\<close>: \<open>generate_timetable\<close> itself: \<open>place\<close> (the insert and the two
    marks), \<open>try_subjects\<close> (the loop over the shuffled subjects with its short-circuit
    \<open>free_room and not ...\<close>), \<open>attempt\<close> (one slot), \<open>run_slots\<close>, \<open>run_days\<close>,
    \<open>run_batches\<close> (the three loops), the start state \<open>gen_init\<close> and the endpoint. Its
    run invariant \<open>gen_inv\<close> says that each occupancy table implements the set of cells
    the pending rows use, that no two pending rows share a faculty or room cell, that ids
    are consecutive from the old counter, and that every row names existing rooms,
    faculties and a subject with that faculty; \<open>advances\<close> adds that the rows of a
    stretch of the run form a subsequence of its attempts and that each attempt yields
    one row or one unscheduled count. One lemma per loop level lifts it to the run.
  \<^item> \<open>Generate\<close>: the properties of one request: no double booking (C1, C2), the
    counts (C3), attempt order (C4), when it returns (C5) and when it raises (C6), no
    rooms (C7), capacity bounds (C8, C9), the empty room id (C10), full replace (C11),
    well-formed rows (C12), the choice of one attempt (C13), and progress: with a
    resolvable subject and a truthy first room the first attempt is placed (C25). The
    subject loop, which looks the free room up for every subject, equals its reference
    \<open>try_subjects_ref\<close> that looks it up once (C26). Under the run invariant the only
    exception of a run is the \<open>KeyError\<close> of an unknown faculty id.
  \<^item> \<open>Projection\<close>: \<open>get_timetable_batch\<close>: the inner join of the query as a nested loop
    over the timetable in rowid order (\<open>join_one\<close>, \<open>join_rows\<close>), the grid of
    \<open>DAYS \<times> SLOTS_PER_DAY\<close> cells and the fill loop with Python's list assignment
    (\<open>fill_row\<close>). The declarative specification \<open>proj_spec\<close> puts in each cell the
    resolved row of that day and slot; the loop is equivalent to it when keys are unique
    and the rows fit the grid (C20); a cell shows the room's name, not its id. Every
    returned grid has the shape of \<open>DAYS\<close> (C23); a row on an unknown day or slot
    raises, slots \<open>\<le> 0\<close> wrap as negative indices (C24).
  \<^item> \<open>Examples\<close>: the example databases and the witnesses of the component properties.
  \<^item> \<open>Server\<close>: the application as a state machine: its state (database, generator
    position, whether \<open>static/index.html\<close> exists), the routes as a datatype of
    requests, the answers as a datatype of responses with HTTP 500 for a raised
    exception, \<open>respond\<close> for every route (CRUD, generate, batch timetable, index), the
    reachable states as an inductive predicate with a \<open>reseed\<close> rule for restarts
    (\<open>init_db\<close>'s \<open>IF NOT EXISTS\<close> keeps the data, \<open>random\<close> is reseeded) and the
    invariant of the reachable states. On a reachable state HTTP 500 leaves the state
    unchanged and comes only from a generation's \<open>KeyError\<close> or a \<open>POST\<close>'s
    \<open>OverflowError\<close> (C27).
  \<^item> this theory: the properties that span components: the invariant every reachable
    state keeps (C17) with its consequences: the next generation keeps no old row (C19),
    the batch endpoint never fails and returns its specified grid (C21), deleting a room
    hides the rows that use it (C22); and re-posting a room moves it to the back of the
    allocator's room order (C28).

  \<^bold>\<open>Modelling choices.\<close> \<open>SELECT *\<close> returns rows in rowid order, which the model
  keeps as list order; \<open>INSERT OR REPLACE\<close> appends the new row. Randomness is an
  explicit oracle, so every theorem holds for every sequence of draws. Python ints are
  \<open>int\<close> where the code does arithmetic on them (the stored slot, the counts) and
  \<open>nat\<close> for loop indices. A raised exception ends the request with HTTP 500 and the
  uncommitted transaction is rolled back, so the database is unchanged
  (\<open>respond\<close>); the draws a failed run took from \<open>random\<close> are not counted, and the
  \<open>reseed\<close> rule covers the position it leaves. All loops are structural (\<open>py_for\<close> over finite lists, \<open>fun\<close> over
  the subject list and the shuffle's index), so no fuel is needed and every definition
  evaluates: the witnesses run the allocator on concrete databases with \<open>code_simp\<close>.

  \<^bold>\<open>Not modelled.\<close> CORS and the static mount (lines 14-26) carry no state; the
  connection helpers \<open>get_db\<close> and \<open>dict_from_row\<close> (lines 29-35) are I/O, a row's
  dict is its record; Pydantic's type validation (HTTP 422 before a handler runs) is not
  modelled, its defaults are; strings are byte strings (\<open>char\<close> lists), so a string
  \<open>sqlite3\<close> cannot encode (a lone surrogate) is not modelled; the timetable id
  counter is unbounded, where SQLite stops at \<open>2^63 - 1\<close>, which no run reaches; the order of the join's result rows, which SQL leaves open, is taken as
  SQLite's nested-loop order, and it matters only when two rows share a cell, which no
  reachable state has (C17); concurrent requests are serialised by SQLite's write lock
  and are not modelled.
\<close>

section \<open>Example runs of the server\<close>

text \<open>A server that was filled through the CRUD routes and then generated once.\<close>

definition ex_requests :: "request list" where
  "ex_requests =
     [Crud (AddRoom (RoomIn ''R1'' ''Hall A'' 60 None None)),
      Crud (AddFaculty \<lparr>fi_faculty_id = ''F1'', fi_name = ''Dr. X''\<rparr>),
      Crud (AddSubject \<lparr>si_subject_id = ''S1'', si_name = ''Math'', si_faculty_id = ''F1''\<rparr>),
      Crud (AddBatch (BatchIn ''B1'' (Some ''CS'') None (Some ''A'') (Some 60) None)),
      Generate]"

definition ex_server :: server where
  "ex_server = fold (handle (\<lambda>_. 0)) ex_requests \<lparr>srv_db = init_db, srv_rng = 0, srv_static_index = False\<rparr>"

section \<open>Properties of the server\<close>

text \<open>
  C17. Every state the server reaches from an empty database, by any sequence of CRUD
  requests and generations (raising or not), has unique primary keys in every entity
  table, a timetable without faculty or room double booking, distinct timetable ids,
  and every id at most the \<open>AUTOINCREMENT\<close> counter.
\<close>

theorem reachable_server_invariant:
  assumes "reachable rnd s"
  shows "keys_unique (srv_db s) \<and>
     distinct (map fac_key (db_timetable (srv_db s))) \<and>
     distinct (map room_key (db_timetable (srv_db s))) \<and>
     distinct (map entry_id (db_timetable (srv_db s))) \<and>
     (\<forall>e\<in>set (db_timetable (srv_db s)). entry_id e \<le> tt_seq (srv_db s))"
  using reachable_server_inv [OF assms] by (simp add: server_inv_def)

text \<open>
  C19. From every reachable state, a generation replaces the timetable: no row of the
  old timetable survives in the new one, because every new row carries an id above the
  old counter, which bounds every old id.
\<close>

theorem generate_never_keeps_old_rows:
  assumes r: "reachable rnd s"
    and g: "generate_timetable rnd (srv_rng s) (srv_db s) = Inr (d', k', resp)"
  shows "set (db_timetable (srv_db s)) \<inter> set (db_timetable d') = {}"
proof -
  have old: "\<forall>e\<in>set (db_timetable (srv_db s)). entry_id e \<le> tt_seq (srv_db s)"
    using reachable_server_inv [OF r] by (simp add: server_inv_def)
  have "\<forall>e\<in>set (db_timetable d'). tt_seq (srv_db s) < entry_id e"
    using map_eq_upt_bounds [OF generate_timetable_inv(4) [OF g]] by (simp add: Suc_le_eq)
  with old show ?thesis by (meson disjoint_iff leD)
qed

text \<open>
  C21. The batch timetable endpoint never fails on a state the server reaches: for every
  batch id, \<open>get_timetable_batch\<close> returns the grid of its specification \<open>proj_spec\<close>,
  because generated rows sit on days of \<open>DAYS\<close>, in slots 1 to 6, one per (batch, day,
  slot), and CRUD requests do not touch the timetable.
\<close>

theorem reachable_projection_total:
  "reachable rnd s \<Longrightarrow> get_timetable_batch (srv_db s) bid = Inr (proj_spec (srv_db s) bid)"
  by (rule server_inv_projection [OF reachable_server_inv])

text \<open>
  C22. Deleting a room hides its sessions: after \<open>DELETE /api/rooms/{id}\<close> for the room
  of a committed row, the row is still in the timetable, but the inner join of the
  projection drops it, so its cell of the batch grid is empty.
\<close>

theorem deleted_room_hides_row:
  assumes r: "reachable rnd s" and t: "t \<in> set (db_timetable (srv_db s))"
  shows "t \<in> set (db_timetable (srv_db (handle rnd (Crud (DeleteRoom (tt_room t))) s))) \<and>
    (\<exists>g xs. get_timetable_batch (srv_db (handle rnd (Crud (DeleteRoom (tt_room t))) s)) (tt_batch t) = Inr g \<and>
       g (tt_day t) = Some xs \<and> xs ! nat (tt_slot t - 1) = None)"
proof -
  let ?s' = "handle rnd (Crud (DeleteRoom (tt_room t))) s"
  let ?d = "srv_db ?s'" and ?i = "nat (tt_slot t - 1)"
  have inv: "server_inv s" by (rule reachable_server_inv [OF r])
  from inv t have day: "tt_day t \<in> set DAYS"
    and slot: "1 \<le> tt_slot t" "tt_slot t \<le> int SLOTS_PER_DAY"
    and dist: "distinct (map attempt_key (db_timetable (srv_db s)))"
    by (auto simp: server_inv_def)
  have at: "at_cell (tt_batch t) (tt_day t) ?i t" using slot by (simp add: at_cell_def)
  have "find (at_cell (tt_batch t) (tt_day t) ?i) (db_timetable (srv_db s)) = Some t"
    by (rule find_distinct_key [where P = "at_cell (tt_batch t) (tt_day t) ?i", OF dist t at])
      (use slot in \<open>simp add: at_cell_def attempt_key_def\<close>)
  moreover have "resolve ?d t = None"
    by (simp add: resolve_def delete_room_def select_key_delete_where)
  moreover have "get_timetable_batch ?d (tt_batch t) = Inr (proj_spec ?d (tt_batch t))"
    by (rule server_inv_projection [OF reachable_server_inv [OF reachable.step [OF r]]])
  moreover have "?i < SLOTS_PER_DAY" using slot by simp
  ultimately show ?thesis using t day by (simp add: proj_spec_def proj_cell_None delete_room_def)
qed

text \<open>
  C28. Editing a room moves it to the back of the allocator's preference: the generator
  places the first session in the first room of \<open>SELECT * FROM rooms\<close>; a
  \<open>POST /api/rooms\<close> that replaces the first room (same id, a capacity SQLite can bind)
  succeeds, gives the replaced row a new rowid, so it comes last, and the first session
  of the next generation goes to the second room.
\<close>

theorem readd_room_loses_priority:
  assumes facs: "\<forall>subj\<in>set (db_subjects d). faculty_id subj \<in> fac_id ` set (db_faculties d)"
    and b: "db_batches d \<noteq> []" and subjs: "db_subjects d \<noteq> []"
    and R: "db_rooms d = r1 # r2 # rs" and ids: "room_id r1 \<noteq> []" "room_id r2 \<noteq> []" "room_id r2 \<noteq> room_id r1"
    and r': "ri_room_id r' = room_id r1" and cap: "sqlite_int (ri_capacity r')"
  shows "(\<exists>d' k' resp. generate_timetable rnd k d = Inr (d', k', resp) \<and>
            tt_room (hd (db_timetable d')) = room_id r1) \<and>
         (\<exists>d2 st. crud_step (AddRoom r') d = Inr (d2, st) \<and>
            (\<exists>d' k' resp. generate_timetable rnd k d2 = Inr (d', k', resp) \<and>
               tt_room (hd (db_timetable d')) = room_id r2))"
proof
  have "db_rooms d \<noteq> []" "room_id (hd (db_rooms d)) \<noteq> []" using R ids by simp_all
  from generate_first_row [OF facs b subjs this, of rnd k] R
  show "\<exists>d' k' resp. generate_timetable rnd k d = Inr (d', k', resp) \<and> tt_room (hd (db_timetable d')) = room_id r1"
    by auto
next
  let ?d2 = "d\<lparr>db_rooms := insert_or_replace room_id (room_row_of r') (db_rooms d)\<rparr>"
  have step: "crud_step (AddRoom r') d = Inr (?d2, Status ''ok'')"
    using cap by (simp add: add_room_def)
  have rooms2: "db_rooms ?d2 = r2 # filter (\<lambda>x. room_id x \<noteq> room_id r1) rs @ [room_row_of r']"
    using R r' ids by (simp add: insert_or_replace_def)
  have facs2: "\<forall>subj\<in>set (db_subjects ?d2). faculty_id subj \<in> fac_id ` set (db_faculties ?d2)"
    using facs by simp
  have "db_batches ?d2 \<noteq> []" "db_subjects ?d2 \<noteq> []" "db_rooms ?d2 \<noteq> []" "room_id (hd (db_rooms ?d2)) \<noteq> []"
    using b subjs rooms2 ids by simp_all
  from generate_first_row [OF facs2 this, of rnd k] rooms2 step
  show "\<exists>d2 st. crud_step (AddRoom r') d = Inr (d2, st) \<and>
      (\<exists>d' k' resp. generate_timetable rnd k d2 = Inr (d', k', resp) \<and> tt_room (hd (db_timetable d')) = room_id r2)"
    by auto
qed

section \<open>Witnesses on the example databases\<close>

theorem reachable_server_invariant_witness:
  "keys_unique (srv_db (handle (\<lambda>_. 0) Generate
      (handle (\<lambda>_. 0) (Crud (AddRoom (RoomIn ''R1'' ''Hall A'' 60 None None)))
        \<lparr>srv_db = init_db, srv_rng = 0, srv_static_index = False\<rparr>)))"
proof -
  have "reachable (\<lambda>_. 0) (handle (\<lambda>_. 0) Generate
      (handle (\<lambda>_. 0) (Crud (AddRoom (RoomIn ''R1'' ''Hall A'' 60 None None)))
        \<lparr>srv_db = init_db, srv_rng = 0, srv_static_index = False\<rparr>))"
    by (intro reachable.step reachable.start)
  from reachable_server_invariant [OF this] show ?thesis by blast
qed


lemma ex_server_generates:
  "(case generate_timetable (\<lambda>_. 0) (srv_rng ex_server) (srv_db ex_server) of
      Inl e \<Rightarrow> False
    | Inr (d', k', resp) \<Rightarrow> db_timetable (srv_db ex_server) \<noteq> [] \<and> db_timetable d' \<noteq> [])"
  by code_simp

theorem generate_never_keeps_old_rows_witness:
  "\<exists>d' k' resp. generate_timetable (\<lambda>_. 0) (srv_rng ex_server) (srv_db ex_server) = Inr (d', k', resp) \<and>
     db_timetable (srv_db ex_server) \<noteq> [] \<and> db_timetable d' \<noteq> [] \<and>
     set (db_timetable (srv_db ex_server)) \<inter> set (db_timetable d') = {}"
proof -
  obtain d' k' resp where g: "generate_timetable (\<lambda>_. 0) (srv_rng ex_server) (srv_db ex_server) = Inr (d', k', resp)"
    and ne: "db_timetable (srv_db ex_server) \<noteq> []" "db_timetable d' \<noteq> []"
    using ex_server_generates by (auto split: sum.splits)
  have "reachable (\<lambda>_. 0) ex_server"
    unfolding ex_server_def by (rule reachable_fold [OF reachable.start])
  from generate_never_keeps_old_rows [OF this g] g ne show ?thesis by blast
qed


lemma ex_server_reachable: "reachable (\<lambda>_. 0) ex_server"
  unfolding ex_server_def by (rule reachable_fold [OF reachable.start])

lemma ex_server_timetable: "db_timetable (srv_db ex_server) \<noteq> []"
  using ex_server_generates by (auto split: sum.splits)

theorem reachable_projection_total_witness:
  "get_timetable_batch (srv_db ex_server) ''B1'' = Inr (proj_spec (srv_db ex_server) ''B1'')"
  by (rule reachable_projection_total [OF ex_server_reachable])

theorem deleted_room_hides_row_witness:
  "hd (db_timetable (srv_db ex_server)) \<in>
     set (db_timetable (srv_db (handle (\<lambda>_. 0) (Crud (DeleteRoom (tt_room (hd (db_timetable (srv_db ex_server))))))
       ex_server))) \<and>
   (\<exists>g xs. get_timetable_batch (srv_db (handle (\<lambda>_. 0)
        (Crud (DeleteRoom (tt_room (hd (db_timetable (srv_db ex_server)))))) ex_server))
        (tt_batch (hd (db_timetable (srv_db ex_server)))) = Inr g \<and>
      g (tt_day (hd (db_timetable (srv_db ex_server)))) = Some xs \<and>
      xs ! nat (tt_slot (hd (db_timetable (srv_db ex_server))) - 1) = None)"
proof -
  have "hd (db_timetable (srv_db ex_server)) \<in> set (db_timetable (srv_db ex_server))"
    using ex_server_timetable by simp
  from deleted_room_hides_row [OF ex_server_reachable this] show ?thesis .
qed


theorem readd_room_loses_priority_witness:
  "(\<exists>d' k' resp. generate_timetable (\<lambda>_. 0) 0 ex_two_rooms = Inr (d', k', resp) \<and>
      tt_room (hd (db_timetable d')) = ''R1'') \<and>
   (\<exists>d2 st. crud_step (AddRoom (RoomIn ''R1'' ''Hall A'' 60 None None)) ex_two_rooms = Inr (d2, st) \<and>
      (\<exists>d' k' resp. generate_timetable (\<lambda>_. 0) 0 d2 = Inr (d', k', resp) \<and>
         tt_room (hd (db_timetable d')) = ''R2''))"
  using readd_room_loses_priority [of ex_two_rooms ex_room "ex_room\<lparr>room_id := ''R2''\<rparr>" "[]"
      "RoomIn ''R1'' ''Hall A'' 60 None None" "\<lambda>_. 0" 0]
  by (simp add: ex_two_rooms_def ex_db_def ex_room_def RoomIn_def sqlite_int_def)

theorem respond_server_error_witness:
  "respond (\<lambda>_. 0) (Crud (AddRoom (RoomIn ''R9'' ''Annex'' (2 ^ 63) None None))) ex_server =
     (ServerError OverflowError, ex_server) \<and> \<not> sqlite_int (ri_capacity (RoomIn ''R9'' ''Annex'' (2 ^ 63) None None))"
proof -
  have resp: "respond (\<lambda>_. 0) (Crud (AddRoom (RoomIn ''R9'' ''Annex'' (2 ^ 63) None None))) ex_server =
     (ServerError OverflowError, ex_server)"
    by (simp add: add_room_def RoomIn_def sqlite_int_def)
  from Server.respond_server_error [OF ex_server_reachable resp] resp show ?thesis by simp
qed

end
